theory Spec2Isabelle
  imports Main "HOL-Library.Word"
begin

unbundle bit_operations_syntax

section \<open>Machine types of the library\<close>

text \<open>
  The header is written against the Win32 SDK: \<open>DWORD\<close> and \<open>UINT\<close> are unsigned 32-bit
  values, \<open>int\<close> is a 32-bit value read as two's complement (\<open>sint\<close>), \<open>wchar_t\<close> is
  a 16-bit UTF-16 code unit and \<open>char\<close> is an 8-bit UTF-8 code unit. A \<open>size_t\<close> is 32
  or 64 bits wide depending on the build; the library only compares and narrows such a
  value, so it is a natural number here and the narrowing is written out.
\<close>

type_synonym DWORD = "32 word"
type_synonym UINT = "32 word"
type_synonym cint = "32 word"
type_synonym size_t = nat
type_synonym wchar_t = "16 word"
type_synonym cchar = "8 word"

definition INT_MAX :: cint where
  "INT_MAX = 0x7FFFFFFF"

section \<open>The exception class\<close>

datatype ConversionType = ConversionFromUtf16ToUtf8 | ConversionFromUtf8ToUtf16

text \<open>
  \<open>class UnicodeConversionException : public std::runtime_error\<close>: the base class keeps
  the C string that \<open>what()\<close> reports, the class adds two private fields.
\<close>

record UnicodeConversionException =
  what :: string
  m_errorCode :: DWORD
  m_conversionType :: ConversionType

text \<open>
  \<open>what()\<close> returns a \<open>const char*\<close>: a C string, which ends at the first NUL.
  \<open>std::runtime_error\<close> constructed from a \<open>std::string\<close> reports the string's
  \<open>c_str()\<close> read that way, so characters from an embedded NUL on are not reported; a
  \<open>const char*\<close> argument is read up to its NUL in the first place.
\<close>

definition c_str :: "string \<Rightarrow> string" where
  "c_str s = takeWhile (\<lambda>c. c \<noteq> CHR 0x00) s"

text \<open>
  The constructor: \<open>std::runtime_error(message), m_errorCode(errorCode),
  m_conversionType(conversionType)\<close>. Its two overloads differ only in the C++ type of
  the message.
\<close>

definition UnicodeConversionException ::
  "DWORD \<Rightarrow> ConversionType \<Rightarrow> string \<Rightarrow> UnicodeConversionException" where
  "UnicodeConversionException errorCode conversionType message =
     \<lparr> what = c_str message, m_errorCode = errorCode, m_conversionType = conversionType \<rparr>"

definition GetErrorCode :: "UnicodeConversionException \<Rightarrow> DWORD" where
  "GetErrorCode e = m_errorCode e"

definition GetConversionType :: "UnicodeConversionException \<Rightarrow> ConversionType" where
  "GetConversionType e = m_conversionType e"

text \<open>
  What can be done to an object of the class after its construction. The three
  accessors are \<open>const\<close> member functions and leave the object as it is. The class
  declares no other member function, and no copy operation either, so the compiler
  declares the copy assignment, which assigns the base and the two fields from the
  source object.
\<close>

datatype member =
    Member_GetErrorCode
  | Member_GetConversionType
  | Member_what
  | Member_copy_assign UnicodeConversionException

fun perform :: "member \<Rightarrow> UnicodeConversionException \<Rightarrow> UnicodeConversionException" where
  "perform Member_GetErrorCode e = e"
| "perform Member_GetConversionType e = e"
| "perform Member_what e = e"
| "perform (Member_copy_assign source) e =
     e \<lparr> what := what source, m_errorCode := m_errorCode source,
         m_conversionType := m_conversionType source \<rparr>"

fun is_const_member :: "member \<Rightarrow> bool" where
  "is_const_member (Member_copy_assign source) = False"
| "is_const_member m = True"

text \<open>
  Everything the library can throw: \<open>std::overflow_error\<close> from the length cast,
  \<open>std::length_error\<close> from the string constructor, and the library's own exception.
\<close>

datatype exception =
    overflow_error string
  | length_error
  | ConversionException UnicodeConversionException

section \<open>detail::SafeIntFromSizet\<close>

text \<open>
  \<open>static_cast<size_t>(INT_MAX)\<close> is the value of \<open>INT_MAX\<close>;
  \<open>static_cast<int>(s)\<close> keeps the low 32 bits of \<open>s\<close>.
\<close>

definition SafeIntFromSizet :: "size_t \<Rightarrow> exception + cint" where
  "SafeIntFromSizet s =
     (if s > nat (sint INT_MAX)
      then Inl (overflow_error
        ''Input size_t value is too large: size_t-length doesn't fit into an int.'')
      else Inr (of_nat s))"

section \<open>The platform interface\<close>

text \<open>
  The two conversions call three functions of the Win32 API. They are parameters of the
  model: a record of functions over a platform state \<open>'w\<close>, which holds whatever the
  platform keeps between calls (the calling thread's last-error value at least).

  A transcoding call takes the code page, the flags, the source text and its length, the
  destination (\<open>None\<close> for \<open>nullptr\<close>, otherwise the current contents of the buffer the
  pointer refers to) and the capacity. It returns the \<open>int\<close> result together with the
  code units it stored from the start of the destination. The two trailing arguments of
  \<open>WideCharToMultiByte\<close> are \<open>nullptr\<close> at both call sites and are left out.
\<close>

record 'w Win32 =
  WideCharToMultiByte ::
    "UINT \<Rightarrow> DWORD \<Rightarrow> wchar_t list \<Rightarrow> cint \<Rightarrow> cchar list option \<Rightarrow> cint \<Rightarrow> 'w
       \<Rightarrow> (cint \<times> cchar list) \<times> 'w"
  MultiByteToWideChar ::
    "UINT \<Rightarrow> DWORD \<Rightarrow> cchar list \<Rightarrow> cint \<Rightarrow> wchar_t list option \<Rightarrow> cint \<Rightarrow> 'w
       \<Rightarrow> (cint \<times> wchar_t list) \<times> 'w"
  GetLastError :: "'w \<Rightarrow> DWORD"

text \<open>Constants of the Platform SDK headers.\<close>

definition CP_UTF8 :: UINT where
  "CP_UTF8 = 65001"

definition WC_ERR_INVALID_CHARS :: DWORD where
  "WC_ERR_INVALID_CHARS = 0x80"

definition MB_ERR_INVALID_CHARS :: DWORD where
  "MB_ERR_INVALID_CHARS = 0x08"

section \<open>Owned strings\<close>

text \<open>
  \<open>std::basic_string(count, ch)\<close>: the \<open>int\<close> argument converts to \<open>size_type\<close>, so a
  negative one is larger than \<open>max_size()\<close> and the constructor throws.
\<close>

definition string_ctor :: "cint \<Rightarrow> 'a \<Rightarrow> exception + 'a list" where
  "string_ctor count ch =
     (if sint count < 0 then Inl length_error else Inr (replicate (nat (sint count)) ch))"

text \<open>
  The fill pass writes through the raw pointer \<open>data()\<close>. That replaces elements of the
  string from its start and cannot change the string's length.
\<close>

definition poke :: "'a list \<Rightarrow> 'a list \<Rightarrow> 'a list" where
  "poke buf written = take (length buf) (written @ drop (length written) buf)"

section \<open>The two conversions\<close>

text \<open>
  Each function is the source function statement by statement: the test for the empty
  view, the length cast, the measure call and its test, the construction of the
  destination string, the fill call and its test. The platform state is threaded
  through the calls. \<open>_ASSERTE(buffer != nullptr)\<close> is a debug-build assertion about
  \<open>data()\<close> of a non-empty string and has no branch here; running out of memory in the
  string constructor is not modelled.
\<close>

definition Utf8FromUtf16 ::
  "'w Win32 \<Rightarrow> wchar_t list \<Rightarrow> 'w \<Rightarrow> (exception + cchar list) \<times> 'w" where
  "Utf8FromUtf16 api utf16 w0 =
     (if utf16 = [] then (Inr [], w0)
      else
        let kFlags = WC_ERR_INVALID_CHARS in
        case SafeIntFromSizet (length utf16) of
          Inl ex \<Rightarrow> (Inl ex, w0)
        | Inr utf16Length \<Rightarrow>
            (case WideCharToMultiByte api CP_UTF8 kFlags utf16 utf16Length None 0 w0 of
               ((utf8Length, _), w1) \<Rightarrow>
                 if utf8Length = 0
                 then
                   (let errorCode = GetLastError api w1 in
                    (Inl (ConversionException (UnicodeConversionException
                       errorCode ConversionFromUtf16ToUtf8
                       ''Can't get result UTF-8 string length (WideCharToMultiByte failed).'')),
                     w1))
                 else
                   (case string_ctor utf8Length 0 of
                      Inl ex \<Rightarrow> (Inl ex, w1)
                    | Inr utf8 \<Rightarrow>
                       (case WideCharToMultiByte api CP_UTF8 kFlags utf16 utf16Length
                               (Some utf8) utf8Length w1 of
                          ((result, written), w2) \<Rightarrow>
                            if result = 0
                            then
                              (let errorCode = GetLastError api w2 in
                               (Inl (ConversionException (UnicodeConversionException
                                  errorCode ConversionFromUtf16ToUtf8
                                  ''Can't convert from UTF-16 to UTF-8 string (WideCharToMultiByte failed).'')),
                                w2))
                            else (Inr (poke utf8 written), w2)))))"

definition Utf16FromUtf8 ::
  "'w Win32 \<Rightarrow> cchar list \<Rightarrow> 'w \<Rightarrow> (exception + wchar_t list) \<times> 'w" where
  "Utf16FromUtf8 api utf8 w0 =
     (if utf8 = [] then (Inr [], w0)
      else
        let kFlags = MB_ERR_INVALID_CHARS in
        case SafeIntFromSizet (length utf8) of
          Inl ex \<Rightarrow> (Inl ex, w0)
        | Inr utf8Length \<Rightarrow>
            (case MultiByteToWideChar api CP_UTF8 kFlags utf8 utf8Length None 0 w0 of
               ((utf16Length, _), w1) \<Rightarrow>
                 if utf16Length = 0
                 then
                   (let errorCode = GetLastError api w1 in
                    (Inl (ConversionException (UnicodeConversionException
                       errorCode ConversionFromUtf8ToUtf16
                       ''Can't get result UTF-16 string length (MultiByteToWideChar failed).'')),
                     w1))
                 else
                   (case string_ctor utf16Length 0 of
                      Inl ex \<Rightarrow> (Inl ex, w1)
                    | Inr utf16 \<Rightarrow>
                       (case MultiByteToWideChar api CP_UTF8 kFlags utf8 utf8Length
                               (Some utf16) utf16Length w1 of
                          ((result, written), w2) \<Rightarrow>
                            if result = 0
                            then
                              (let errorCode = GetLastError api w2 in
                               (Inl (ConversionException (UnicodeConversionException
                                  errorCode ConversionFromUtf8ToUtf16
                                  ''Can't convert from UTF-8 to UTF-16 string (MultiByteToWideChar failed).'')),
                                w2))
                            else (Inr (poke utf16 written), w2)))))"

section \<open>Observing the calls\<close>

text \<open>
  To speak about which calls a conversion makes and in which order, any platform can be
  wrapped so that its state also carries the list of transcoding calls made so far, each
  with the arguments it received.
\<close>

datatype call =
    Call_WideCharToMultiByte UINT DWORD "wchar_t list" cint "cchar list option" cint
  | Call_MultiByteToWideChar UINT DWORD "cchar list" cint "wchar_t list option" cint

definition traced :: "'w Win32 \<Rightarrow> ('w \<times> call list) Win32" where
  "traced api =
     \<lparr> WideCharToMultiByte = (\<lambda>cp fl src n dst cb (w, tr).
         case WideCharToMultiByte api cp fl src n dst cb w of
           (r, w') \<Rightarrow> (r, (w', tr @ [Call_WideCharToMultiByte cp fl src n dst cb]))),
       MultiByteToWideChar = (\<lambda>cp fl src n dst cb (w, tr).
         case MultiByteToWideChar api cp fl src n dst cb w of
           (r, w') \<Rightarrow> (r, (w', tr @ [Call_MultiByteToWideChar cp fl src n dst cb]))),
       GetLastError = (\<lambda>(w, tr). GetLastError api w) \<rparr>"

fun call_flags :: "call \<Rightarrow> DWORD" where
  "call_flags (Call_WideCharToMultiByte cp fl src n dst cb) = fl"
| "call_flags (Call_MultiByteToWideChar cp fl src n dst cb) = fl"

text \<open>
  A platform that replays a script: every transcoding call takes the next entry, which
  gives the result, the units stored and the last-error value the call leaves behind.
  With an exhausted script a call fails.
\<close>

type_synonym script = "(cint \<times> cchar list \<times> wchar_t list \<times> DWORD) list"

definition replay :: "(script \<times> DWORD) Win32" where
  "replay =
     \<lparr> WideCharToMultiByte = (\<lambda>cp fl src n dst cb (sc, err).
         case sc of
           [] \<Rightarrow> ((0, []), ([], err))
         | (r, bytes, units, err') # sc' \<Rightarrow> ((r, bytes), (sc', err'))),
       MultiByteToWideChar = (\<lambda>cp fl src n dst cb (sc, err).
         case sc of
           [] \<Rightarrow> ((0, []), ([], err))
         | (r, bytes, units, err') # sc' \<Rightarrow> ((r, units), (sc', err'))),
       GetLastError = (\<lambda>(sc, err). err) \<rparr>"

section \<open>The transcoding primitive\<close>

text \<open>
  Modelled from the spec: the platform's transcoding primitive (\<open>WideCharToMultiByte\<close>
  and \<open>MultiByteToWideChar\<close> of the Win32 API) is not part of the repository. The spec
  gives its contract: with no destination or a zero capacity it returns the number of
  output units required; with a destination it fills it and returns the number of units
  written; it returns 0 on any failure and leaves a last-error code; in strict mode it
  rejects malformed input rather than substituting replacement characters. The
  transcoding itself is UTF-8 and UTF-16 as the Unicode standard defines them.
\<close>

subsection \<open>Code points and their two encodings\<close>

text \<open>
  Modelled from the spec: the surrogate code units of UTF-16. A high surrogate followed
  by a low one encodes a code point outside the 16-bit range; an unpaired half is
  malformed.
\<close>

definition is_high_surrogate :: "wchar_t \<Rightarrow> bool" where
  "is_high_surrogate u \<longleftrightarrow> 0xD800 \<le> unat u \<and> unat u < 0xDC00"

definition is_low_surrogate :: "wchar_t \<Rightarrow> bool" where
  "is_low_surrogate u \<longleftrightarrow> 0xDC00 \<le> unat u \<and> unat u < 0xE000"

text \<open>Unicode scalar values: the code points that are not surrogates.\<close>

definition scalar_value :: "nat \<Rightarrow> bool" where
  "scalar_value cp \<longleftrightarrow> cp < 0x110000 \<and> \<not> (0xD800 \<le> cp \<and> cp < 0xE000)"

definition REPLACEMENT_CHARACTER :: nat where
  "REPLACEMENT_CHARACTER = 0xFFFD"

text \<open>
  Modelled from the spec: the code point at the head of a UTF-16 text and the number of
  further units it takes; \<open>None\<close> for an unpaired surrogate.
\<close>

definition utf16_next :: "wchar_t \<Rightarrow> wchar_t list \<Rightarrow> (nat \<times> nat) option" where
  "utf16_next u us =
     (if is_high_surrogate u then
        (case us of
           [] \<Rightarrow> None
         | l # _ \<Rightarrow>
             if is_low_surrogate l
             then Some (0x10000 + (unat u - 0xD800) * 0x400 + (unat l - 0xDC00), 1)
             else None)
      else if is_low_surrogate u then None
      else Some (unat u, 0))"

text \<open>
  Modelled from the spec: the code points of a UTF-16 text. Strict mode rejects
  malformed input; otherwise the replacement character stands for each malformed unit.
\<close>

fun utf16_decode :: "bool \<Rightarrow> wchar_t list \<Rightarrow> nat list option" where
  "utf16_decode strict [] = Some []"
| "utf16_decode strict (u # us) =
     (case utf16_next u us of
        Some (cp, k) \<Rightarrow> map_option ((#) cp) (utf16_decode strict (drop k us))
      | None \<Rightarrow>
          if strict then None
          else map_option ((#) REPLACEMENT_CHARACTER) (utf16_decode strict us))"

text \<open>Modelled from the spec: the UTF-16 and the UTF-8 encoding of one code point.\<close>

definition utf16_encode :: "nat \<Rightarrow> wchar_t list" where
  "utf16_encode cp =
     (if cp < 0x10000 then [of_nat cp]
      else [of_nat (0xD800 + (cp - 0x10000) div 0x400),
            of_nat (0xDC00 + (cp - 0x10000) mod 0x400)])"

definition utf8_encode :: "nat \<Rightarrow> cchar list" where
  "utf8_encode cp =
     (if cp < 0x80 then [of_nat cp]
      else if cp < 0x800 then
        [of_nat (0xC0 + cp div 0x40), of_nat (0x80 + cp mod 0x40)]
      else if cp < 0x10000 then
        [of_nat (0xE0 + cp div 0x1000), of_nat (0x80 + cp div 0x40 mod 0x40),
         of_nat (0x80 + cp mod 0x40)]
      else
        [of_nat (0xF0 + cp div 0x40000), of_nat (0x80 + cp div 0x1000 mod 0x40),
         of_nat (0x80 + cp div 0x40 mod 0x40), of_nat (0x80 + cp mod 0x40)])"

definition is_continuation :: "cchar \<Rightarrow> bool" where
  "is_continuation b \<longleftrightarrow> 0x80 \<le> unat b \<and> unat b < 0xC0"

text \<open>
  Modelled from the spec: the code point at the head of a UTF-8 text and the number of
  continuation bytes it takes; \<open>None\<close> when no well-formed sequence starts there: a
  stray or missing continuation byte, an overlong form, an encoded surrogate, a value
  above U+10FFFF.
\<close>

definition utf8_next :: "cchar \<Rightarrow> cchar list \<Rightarrow> (nat \<times> nat) option" where
  "utf8_next b0 bs =
     (let x = unat b0 in
      if x < 0x80 then Some (x, 0)
      else if 0xC0 \<le> x \<and> x < 0xE0 then
        (case bs of
           b1 # _ \<Rightarrow>
             (let cp = (x - 0xC0) * 0x40 + (unat b1 - 0x80) in
              if is_continuation b1 \<and> 0x80 \<le> cp then Some (cp, 1) else None)
         | _ \<Rightarrow> None)
      else if 0xE0 \<le> x \<and> x < 0xF0 then
        (case bs of
           b1 # b2 # _ \<Rightarrow>
             (let cp = (x - 0xE0) * 0x1000 + (unat b1 - 0x80) * 0x40 + (unat b2 - 0x80) in
              if is_continuation b1 \<and> is_continuation b2 \<and> 0x800 \<le> cp
                 \<and> \<not> (0xD800 \<le> cp \<and> cp < 0xE000)
              then Some (cp, 2) else None)
         | _ \<Rightarrow> None)
      else if 0xF0 \<le> x \<and> x < 0xF8 then
        (case bs of
           b1 # b2 # b3 # _ \<Rightarrow>
             (let cp = (x - 0xF0) * 0x40000 + (unat b1 - 0x80) * 0x1000
                        + (unat b2 - 0x80) * 0x40 + (unat b3 - 0x80) in
              if is_continuation b1 \<and> is_continuation b2 \<and> is_continuation b3
                 \<and> 0x10000 \<le> cp \<and> cp < 0x110000
              then Some (cp, 3) else None)
         | _ \<Rightarrow> None)
      else None)"

text \<open>
  Modelled from the spec: the code points of a UTF-8 text, strict or with replacement
  as for UTF-16, and the two transcodings built from decoding and encoding.
\<close>

fun utf8_decode :: "bool \<Rightarrow> cchar list \<Rightarrow> nat list option" where
  "utf8_decode strict [] = Some []"
| "utf8_decode strict (b0 # bs) =
     (case utf8_next b0 bs of
        Some (cp, k) \<Rightarrow> map_option ((#) cp) (utf8_decode strict (drop k bs))
      | None \<Rightarrow>
          if strict then None
          else map_option ((#) REPLACEMENT_CHARACTER) (utf8_decode strict bs))"

definition transcode_utf16_to_utf8 :: "bool \<Rightarrow> wchar_t list \<Rightarrow> cchar list option" where
  "transcode_utf16_to_utf8 strict src =
     map_option (\<lambda>cps. concat (map utf8_encode cps)) (utf16_decode strict src)"

definition transcode_utf8_to_utf16 :: "bool \<Rightarrow> cchar list \<Rightarrow> wchar_t list option" where
  "transcode_utf8_to_utf16 strict src =
     map_option (\<lambda>cps. concat (map utf16_encode cps)) (utf8_decode strict src)"

subsection \<open>The two-call protocol\<close>

text \<open>Modelled from the spec: the last-error codes the primitive leaves, with their
  values in the Platform SDK.\<close>

definition ERROR_INVALID_PARAMETER :: DWORD where
  "ERROR_INVALID_PARAMETER = 87"

definition ERROR_INSUFFICIENT_BUFFER :: DWORD where
  "ERROR_INSUFFICIENT_BUFFER = 122"

definition ERROR_NO_UNICODE_TRANSLATION :: DWORD where
  "ERROR_NO_UNICODE_TRANSLATION = 1113"

text \<open>
  Modelled from the spec: what a call answers once the text is transcoded (\<open>None\<close>: malformed input in strict
  mode). The platform state is the last-error value; a call that succeeds leaves it as
  it was. A result that does not fit the \<open>int\<close> return value is a failure.
\<close>

definition answer ::
  "'a list option \<Rightarrow> 'a list option \<Rightarrow> cint \<Rightarrow> DWORD \<Rightarrow> (cint \<times> 'a list) \<times> DWORD" where
  "answer transcoded dest capacity lastError =
     (case transcoded of
        None \<Rightarrow> ((0, []), ERROR_NO_UNICODE_TRANSLATION)
      | Some out \<Rightarrow>
          if length out > nat (sint INT_MAX) then ((0, []), ERROR_INVALID_PARAMETER)
          else if dest = None \<or> capacity = 0 then ((of_nat (length out), []), lastError)
          else if nat (sint capacity) < length out
          then ((0, take (nat (sint capacity)) out), ERROR_INSUFFICIENT_BUFFER)
          else ((of_nat (length out), out), lastError))"

text \<open>
  Modelled from the spec: the two entry points of the primitive. Only the UTF-8 code
  page is modelled, and only explicit (positive) source lengths; the strictness flag is
  the bit \<open>WC_ERR_INVALID_CHARS\<close>, respectively \<open>MB_ERR_INVALID_CHARS\<close>, of the flags.
\<close>

definition win32_WideCharToMultiByte ::
  "UINT \<Rightarrow> DWORD \<Rightarrow> wchar_t list \<Rightarrow> cint \<Rightarrow> cchar list option \<Rightarrow> cint \<Rightarrow> DWORD
     \<Rightarrow> (cint \<times> cchar list) \<times> DWORD" where
  "win32_WideCharToMultiByte CodePage dwFlags lpWideCharStr cchWideChar
       lpMultiByteStr cbMultiByte lastError =
     (if CodePage \<noteq> CP_UTF8 \<or> sint cchWideChar \<le> 0 \<or> sint cbMultiByte < 0
      then ((0, []), ERROR_INVALID_PARAMETER)
      else answer
             (transcode_utf16_to_utf8 (dwFlags AND WC_ERR_INVALID_CHARS \<noteq> 0)
                (take (nat (sint cchWideChar)) lpWideCharStr))
             lpMultiByteStr cbMultiByte lastError)"

definition win32_MultiByteToWideChar ::
  "UINT \<Rightarrow> DWORD \<Rightarrow> cchar list \<Rightarrow> cint \<Rightarrow> wchar_t list option \<Rightarrow> cint \<Rightarrow> DWORD
     \<Rightarrow> (cint \<times> wchar_t list) \<times> DWORD" where
  "win32_MultiByteToWideChar CodePage dwFlags lpMultiByteStr cbMultiByte
       lpWideCharStr cchWideChar lastError =
     (if CodePage \<noteq> CP_UTF8 \<or> sint cbMultiByte \<le> 0 \<or> sint cchWideChar < 0
      then ((0, []), ERROR_INVALID_PARAMETER)
      else answer
             (transcode_utf8_to_utf16 (dwFlags AND MB_ERR_INVALID_CHARS \<noteq> 0)
                (take (nat (sint cbMultiByte)) lpMultiByteStr))
             lpWideCharStr cchWideChar lastError)"

text \<open>Modelled from the spec: the platform built from the two entry points; its state
  is the last-error value, which \<open>GetLastError\<close> reads.\<close>

definition win32 :: "DWORD Win32" where
  "win32 =
     \<lparr> WideCharToMultiByte = win32_WideCharToMultiByte,
       MultiByteToWideChar = win32_MultiByteToWideChar,
       GetLastError = (\<lambda>lastError. lastError) \<rparr>"

subsection \<open>Well-formed text\<close>

text \<open>Modelled from the spec: UTF-16 text composed only of valid code units, that is,
  without an unpaired surrogate.\<close>

fun valid_utf16 :: "wchar_t list \<Rightarrow> bool" where
  "valid_utf16 [] = True"
| "valid_utf16 [u] = (\<not> is_high_surrogate u \<and> \<not> is_low_surrogate u)"
| "valid_utf16 (u # l # us) =
     (if is_high_surrogate u then is_low_surrogate l \<and> valid_utf16 us
      else \<not> is_low_surrogate u \<and> valid_utf16 (l # us))"

text \<open>Modelled from the spec: valid UTF-8 text, made of the well-formed byte sequences
  of the Unicode standard (table 3-7), given by the ranges of the bytes.\<close>

definition between :: "cchar \<Rightarrow> cchar \<Rightarrow> cchar \<Rightarrow> bool" where
  "between lo hi b \<longleftrightarrow> lo \<le> b \<and> b \<le> hi"

fun well_formed_utf8 :: "cchar list \<Rightarrow> bool" where
  "well_formed_utf8 [] = True"
| "well_formed_utf8 (b0 # bs) =
     (if b0 \<le> 0x7F then well_formed_utf8 bs
      else if between 0xC2 0xDF b0 then
        (case bs of
           b1 # r \<Rightarrow> between 0x80 0xBF b1 \<and> well_formed_utf8 r
         | _ \<Rightarrow> False)
      else if between 0xE0 0xEF b0 then
        (case bs of
           b1 # b2 # r \<Rightarrow>
             between (if b0 = 0xE0 then 0xA0 else 0x80) (if b0 = 0xED then 0x9F else 0xBF) b1
             \<and> between 0x80 0xBF b2 \<and> well_formed_utf8 r
         | _ \<Rightarrow> False)
      else if between 0xF0 0xF4 b0 then
        (case bs of
           b1 # b2 # b3 # r \<Rightarrow>
             between (if b0 = 0xF0 then 0x90 else 0x80) (if b0 = 0xF4 then 0x8F else 0xBF) b1
             \<and> between 0x80 0xBF b2 \<and> between 0x80 0xBF b3 \<and> well_formed_utf8 r
         | _ \<Rightarrow> False)
      else False)"

section \<open>The length cast\<close>

lemma SafeIntFromSizet_fits:
  "s \<le> 2147483647 \<Longrightarrow> SafeIntFromSizet s = Inr (of_nat s)"
  by (simp add: SafeIntFromSizet_def INT_MAX_def)

lemma SafeIntFromSizet_too_large:
  "2147483647 < s \<Longrightarrow> SafeIntFromSizet s = Inl (overflow_error
     ''Input size_t value is too large: size_t-length doesn't fit into an int.'')"
  by (simp add: SafeIntFromSizet_def INT_MAX_def)

lemma sint_of_nat_fits:
  assumes "s \<le> 2147483647"
  shows "sint (of_nat s :: cint) = int s"
proof -
  have "(word_of_nat s :: cint) = word_of_int (int s)" by simp
  then have "sint (word_of_nat s :: cint) = signed_take_bit 31 (int s)"
    by (simp only: sint_sbintrunc') simp
  also have "\<dots> = int s"
    using assms by (intro signed_take_bit_int_eq_self) auto
  finally show ?thesis .
qed

lemma of_nat_fits_eq_0:
  assumes "s \<le> 2147483647"
  shows "(of_nat s :: cint) = 0 \<longleftrightarrow> s = 0"
proof
  assume "(of_nat s :: cint) = 0"
  then have "sint (of_nat s :: cint) = 0" by simp
  with sint_of_nat_fits [OF assms] show "s = 0" by simp
qed simp

text \<open>
  Claim C4. \<open>SafeIntFromSizet\<close> throws \<open>std::overflow_error\<close> exactly when its argument
  is larger than \<open>INT_MAX\<close> = 2147483647; otherwise it returns an \<open>int\<close> with the same
  numeric value. What it throws is never the library's conversion exception (nor any
  other kind), so a caller can tell a length overflow from a conversion failure.
\<close>

theorem SafeIntFromSizet_overflow_exactly:
  "(2147483647 < s \<longrightarrow> (\<exists>m. SafeIntFromSizet s = Inl (overflow_error m)))
   \<and> (s \<le> 2147483647 \<longrightarrow> (\<exists>r. SafeIntFromSizet s = Inr r \<and> sint r = int s))
   \<and> (\<forall>e. SafeIntFromSizet s \<noteq> Inl (ConversionException e))
   \<and> SafeIntFromSizet s \<noteq> Inl length_error"
proof (cases "s \<le> 2147483647")
  case True
  then show ?thesis
    by (simp add: SafeIntFromSizet_fits sint_of_nat_fits)
next
  case False
  then show ?thesis
    by (simp add: SafeIntFromSizet_too_large)
qed

theorem SafeIntFromSizet_overflow_exactly_witness:
  "(\<exists>r. SafeIntFromSizet 2147483647 = Inr r \<and> sint r = 2147483647)
   \<and> (\<exists>m. SafeIntFromSizet 2147483648 = Inl (overflow_error m))"
  using SafeIntFromSizet_overflow_exactly [of 2147483647]
        SafeIntFromSizet_overflow_exactly [of 2147483648]
  by simp

section \<open>The exception as data\<close>

lemma c_str_without_NUL: "CHR 0x00 \<notin> set s \<Longrightarrow> c_str s = s"
  unfolding c_str_def by (rule takeWhile_eq_all_conv [THEN iffD2]) auto

lemma c_str_has_no_NUL: "CHR 0x00 \<notin> set (c_str s)"
  unfolding c_str_def by (auto dest: set_takeWhileD)

lemma const_members_keep_the_object:
  "list_all is_const_member calls \<Longrightarrow> fold perform calls e = e"
proof (induction calls)
  case Nil
  show ?case by simp
next
  case (Cons c calls)
  then have "is_const_member c" and rest: "fold perform calls e = e" by simp_all
  then have "perform c e = e" by (cases c) simp_all
  with rest show ?case by simp
qed

text \<open>
  Claim C9 (as amended). An exception object carries what it was constructed with:
  \<open>GetErrorCode\<close> returns the error code given to the constructor,
  \<open>GetConversionType\<close> the conversion type, and \<open>what()\<close> the message up to its first
  NUL character, which is the whole message when it contains none. No sequence of calls
  of the three accessors changes the object, so they keep returning these values; the
  object is not immutable beyond that, since the implicit copy assignment replaces its
  data by those of the source object.
\<close>

theorem exception_carries_its_data:
  "GetErrorCode (UnicodeConversionException errorCode conversionType message) = errorCode
   \<and> GetConversionType (UnicodeConversionException errorCode conversionType message)
       = conversionType
   \<and> what (UnicodeConversionException errorCode conversionType message)
       = takeWhile (\<lambda>c. c \<noteq> CHR 0x00) message
   \<and> (CHR 0x00 \<notin> set message \<longrightarrow>
        what (UnicodeConversionException errorCode conversionType message) = message)
   \<and> (list_all is_const_member calls \<longrightarrow>
        fold perform calls (UnicodeConversionException errorCode conversionType message)
          = UnicodeConversionException errorCode conversionType message)
   \<and> perform (Member_copy_assign source)
         (UnicodeConversionException errorCode conversionType message) = source"
proof -
  have "what (UnicodeConversionException errorCode conversionType message)
      = takeWhile (\<lambda>c. c \<noteq> CHR 0x00) message"
    by (simp add: UnicodeConversionException_def c_str_def)
  moreover have "CHR 0x00 \<notin> set message \<Longrightarrow>
      what (UnicodeConversionException errorCode conversionType message) = message"
    by (simp add: UnicodeConversionException_def c_str_without_NUL)
  moreover have "perform (Member_copy_assign source)
      (UnicodeConversionException errorCode conversionType message) = source"
    by simp
  ultimately show ?thesis
    by (simp add: GetErrorCode_def GetConversionType_def const_members_keep_the_object)
      (simp add: UnicodeConversionException_def)
qed

theorem exception_carries_its_data_witness:
  "what (UnicodeConversionException 1113 ConversionFromUtf16ToUtf8
      ''Can't get result UTF-8 string length (WideCharToMultiByte failed).'')
     = ''Can't get result UTF-8 string length (WideCharToMultiByte failed).''
   \<and> GetErrorCode (fold perform [Member_what, Member_GetConversionType, Member_GetErrorCode]
        (UnicodeConversionException 1113 ConversionFromUtf16ToUtf8
          ''Can't get result UTF-8 string length (WideCharToMultiByte failed).'')) = 1113"
  using exception_carries_its_data [of 1113 ConversionFromUtf16ToUtf8
      "''Can't get result UTF-8 string length (WideCharToMultiByte failed).''"
      "[Member_what, Member_GetConversionType, Member_GetErrorCode]"]
  by simp

text \<open>
  The claim as stated fails in both respects. A \<open>std::string\<close> message with an
  embedded NUL is not what \<open>what()\<close> reports, and after a copy assignment
  \<open>GetErrorCode\<close> returns the code of the source object, not the one the object was
  constructed with.
\<close>

theorem exception_data_counterexample:
  "what (UnicodeConversionException 0 ConversionFromUtf16ToUtf8
      [CHR ''a'', CHR 0x00, CHR ''b'']) = ''a''
   \<and> what (UnicodeConversionException 0 ConversionFromUtf16ToUtf8
      [CHR ''a'', CHR 0x00, CHR ''b'']) \<noteq> [CHR ''a'', CHR 0x00, CHR ''b'']
   \<and> GetErrorCode (perform
        (Member_copy_assign (UnicodeConversionException 2 ConversionFromUtf8ToUtf16 ''y''))
        (UnicodeConversionException 1 ConversionFromUtf16ToUtf8 ''x'')) = 2"
  by (simp add: UnicodeConversionException_def c_str_def GetErrorCode_def)

section \<open>Empty input\<close>

text \<open>
  Claim C3. On the empty input \<open>Utf8FromUtf16\<close> returns the empty UTF-8 string and
  \<open>Utf16FromUtf8\<close> the empty UTF-16 string, on every platform and in every platform
  state, and the state is returned as it was; on a platform that records its calls the
  record stays empty: no transcoding call is made, so the empty case cannot fail.
\<close>

theorem empty_input_fast_path:
  "Utf8FromUtf16 api [] w = (Inr [], w)
   \<and> Utf16FromUtf8 api [] w = (Inr [], w)
   \<and> Utf8FromUtf16 (traced api) [] (w, []) = (Inr [], (w, []))
   \<and> Utf16FromUtf8 (traced api) [] (w, []) = (Inr [], (w, []))"
  by (simp add: Utf8FromUtf16_def Utf16FromUtf8_def)

section \<open>The conversions, step by step\<close>

lemma string_ctor_ok:
  "0 \<le> sint n \<Longrightarrow> string_ctor n c = Inr (replicate (nat (sint n)) c)"
  by (simp add: string_ctor_def)

lemma string_ctor_negative:
  "sint n < 0 \<Longrightarrow> string_ctor n c = Inl length_error"
  by (simp add: string_ctor_def)

lemma length_poke [simp]: "length (poke buf written) = length buf"
  by (simp add: poke_def)

lemma Utf8FromUtf16_overflow:
  "utf16 \<noteq> [] \<Longrightarrow> 2147483647 < length utf16 \<Longrightarrow>
   Utf8FromUtf16 api utf16 w = (Inl (overflow_error
     ''Input size_t value is too large: size_t-length doesn't fit into an int.''), w)"
  by (simp add: Utf8FromUtf16_def SafeIntFromSizet_too_large)

lemma Utf8FromUtf16_measure_failed:
  assumes "utf16 \<noteq> []" "length utf16 \<le> 2147483647"
    and "WideCharToMultiByte api CP_UTF8 WC_ERR_INVALID_CHARS utf16 (of_nat (length utf16))
           None 0 w = ((0, x), w1)"
  shows "Utf8FromUtf16 api utf16 w =
     (Inl (ConversionException (UnicodeConversionException (GetLastError api w1)
        ConversionFromUtf16ToUtf8
        ''Can't get result UTF-8 string length (WideCharToMultiByte failed).'')), w1)"
  using assms by (simp add: Utf8FromUtf16_def SafeIntFromSizet_fits)

lemma Utf8FromUtf16_length_error:
  assumes "utf16 \<noteq> []" "length utf16 \<le> 2147483647"
    and "WideCharToMultiByte api CP_UTF8 WC_ERR_INVALID_CHARS utf16 (of_nat (length utf16))
           None 0 w = ((n, x), w1)"
    and "n \<noteq> 0" "sint n < 0"
  shows "Utf8FromUtf16 api utf16 w = (Inl length_error, w1)"
  using assms by (simp add: Utf8FromUtf16_def SafeIntFromSizet_fits string_ctor_negative)

lemma Utf8FromUtf16_fill:
  assumes "utf16 \<noteq> []" "length utf16 \<le> 2147483647"
    and "WideCharToMultiByte api CP_UTF8 WC_ERR_INVALID_CHARS utf16 (of_nat (length utf16))
           None 0 w = ((n, x), w1)"
    and "n \<noteq> 0" "0 \<le> sint n"
    and "WideCharToMultiByte api CP_UTF8 WC_ERR_INVALID_CHARS utf16 (of_nat (length utf16))
           (Some (replicate (nat (sint n)) 0)) n w1 = ((r, written), w2)"
  shows "Utf8FromUtf16 api utf16 w =
     (if r = 0
      then (Inl (ConversionException (UnicodeConversionException (GetLastError api w2)
        ConversionFromUtf16ToUtf8
        ''Can't convert from UTF-16 to UTF-8 string (WideCharToMultiByte failed).'')), w2)
      else (Inr (poke (replicate (nat (sint n)) 0) written), w2))"
  using assms by (simp add: Utf8FromUtf16_def SafeIntFromSizet_fits string_ctor_ok)

lemma Utf16FromUtf8_overflow:
  "utf8 \<noteq> [] \<Longrightarrow> 2147483647 < length utf8 \<Longrightarrow>
   Utf16FromUtf8 api utf8 w = (Inl (overflow_error
     ''Input size_t value is too large: size_t-length doesn't fit into an int.''), w)"
  by (simp add: Utf16FromUtf8_def SafeIntFromSizet_too_large)

lemma Utf16FromUtf8_measure_failed:
  assumes "utf8 \<noteq> []" "length utf8 \<le> 2147483647"
    and "MultiByteToWideChar api CP_UTF8 MB_ERR_INVALID_CHARS utf8 (of_nat (length utf8))
           None 0 w = ((0, x), w1)"
  shows "Utf16FromUtf8 api utf8 w =
     (Inl (ConversionException (UnicodeConversionException (GetLastError api w1)
        ConversionFromUtf8ToUtf16
        ''Can't get result UTF-16 string length (MultiByteToWideChar failed).'')), w1)"
  using assms by (simp add: Utf16FromUtf8_def SafeIntFromSizet_fits)

lemma Utf16FromUtf8_length_error:
  assumes "utf8 \<noteq> []" "length utf8 \<le> 2147483647"
    and "MultiByteToWideChar api CP_UTF8 MB_ERR_INVALID_CHARS utf8 (of_nat (length utf8))
           None 0 w = ((n, x), w1)"
    and "n \<noteq> 0" "sint n < 0"
  shows "Utf16FromUtf8 api utf8 w = (Inl length_error, w1)"
  using assms by (simp add: Utf16FromUtf8_def SafeIntFromSizet_fits string_ctor_negative)

lemma Utf16FromUtf8_fill:
  assumes "utf8 \<noteq> []" "length utf8 \<le> 2147483647"
    and "MultiByteToWideChar api CP_UTF8 MB_ERR_INVALID_CHARS utf8 (of_nat (length utf8))
           None 0 w = ((n, x), w1)"
    and "n \<noteq> 0" "0 \<le> sint n"
    and "MultiByteToWideChar api CP_UTF8 MB_ERR_INVALID_CHARS utf8 (of_nat (length utf8))
           (Some (replicate (nat (sint n)) 0)) n w1 = ((r, written), w2)"
  shows "Utf16FromUtf8 api utf8 w =
     (if r = 0
      then (Inl (ConversionException (UnicodeConversionException (GetLastError api w2)
        ConversionFromUtf8ToUtf16
        ''Can't convert from UTF-8 to UTF-16 string (MultiByteToWideChar failed).'')), w2)
      else (Inr (poke (replicate (nat (sint n)) 0) written), w2))"
  using assms by (simp add: Utf16FromUtf8_def SafeIntFromSizet_fits string_ctor_ok)

section \<open>Platforms that record or replay calls\<close>

lemma traced_WideCharToMultiByte:
  "WideCharToMultiByte api cp fl src n dst cb w = (r, w') \<Longrightarrow>
   WideCharToMultiByte (traced api) cp fl src n dst cb (w, tr) =
     (r, (w', tr @ [Call_WideCharToMultiByte cp fl src n dst cb]))"
  by (simp add: traced_def)

lemma traced_MultiByteToWideChar:
  "MultiByteToWideChar api cp fl src n dst cb w = (r, w') \<Longrightarrow>
   MultiByteToWideChar (traced api) cp fl src n dst cb (w, tr) =
     (r, (w', tr @ [Call_MultiByteToWideChar cp fl src n dst cb]))"
  by (simp add: traced_def)

lemma traced_transparent:
  "fst (Utf8FromUtf16 (traced api) utf16 (w, tr)) = fst (Utf8FromUtf16 api utf16 w)"
  "fst (Utf16FromUtf8 (traced api) utf8 (w, tr)) = fst (Utf16FromUtf8 api utf8 w)"
  by (simp_all add: Utf8FromUtf16_def Utf16FromUtf8_def traced_def Let_def
      split: prod.splits sum.splits)

lemma replay_simps:
  "WideCharToMultiByte replay cp fl src n dst cb ((r, bytes, units, e) # sc, err)
     = ((r, bytes), (sc, e))"
  "WideCharToMultiByte replay cp fl src n dst cb ([], err) = ((0, []), ([], err))"
  "MultiByteToWideChar replay cp fl src' n dst' cb ((r, bytes, units, e) # sc, err)
     = ((r, units), (sc, e))"
  "MultiByteToWideChar replay cp fl src' n dst' cb ([], err) = ((0, []), ([], err))"
  "GetLastError replay (sc, err) = err"
  by (simp_all add: replay_def)

lemma Utf8FromUtf16_calls:
  fixes api :: "'w Win32"
  shows "snd (snd (Utf8FromUtf16 (traced api) utf16 (w, []))) =
     (if utf16 = [] \<or> 2147483647 < length utf16 then []
      else
        let len = of_nat (length utf16);
            n = fst (fst (WideCharToMultiByte api CP_UTF8 WC_ERR_INVALID_CHARS utf16 len
                  None 0 w))
        in if n = 0 \<or> sint n < 0
           then [Call_WideCharToMultiByte CP_UTF8 WC_ERR_INVALID_CHARS utf16 len None 0]
           else [Call_WideCharToMultiByte CP_UTF8 WC_ERR_INVALID_CHARS utf16 len None 0,
                 Call_WideCharToMultiByte CP_UTF8 WC_ERR_INVALID_CHARS utf16 len
                   (Some (replicate (nat (sint n)) 0)) n])"
proof (cases "utf16 = []")
  case True
  then show ?thesis by (simp add: Utf8FromUtf16_def)
next
  case ne: False
  show ?thesis
  proof (cases "length utf16 \<le> 2147483647")
    case False
    then show ?thesis using ne by (simp add: Utf8FromUtf16_overflow)
  next
    case le: True
    obtain n x w1 where m: "WideCharToMultiByte api CP_UTF8 WC_ERR_INVALID_CHARS utf16
        (of_nat (length utf16)) None 0 w = ((n, x), w1)"
      by (metis surj_pair)
    obtain r y w2 where f: "WideCharToMultiByte api CP_UTF8 WC_ERR_INVALID_CHARS utf16
        (of_nat (length utf16)) (Some (replicate (nat (sint n)) 0)) n w1 = ((r, y), w2)"
      by (metis surj_pair)
    note tm = traced_WideCharToMultiByte [OF m, of "[]", simplified]
    note tf = traced_WideCharToMultiByte [OF f,
        of "[Call_WideCharToMultiByte CP_UTF8 WC_ERR_INVALID_CHARS utf16
              (of_nat (length utf16)) None 0]", simplified]
    consider "n = 0" | "n \<noteq> 0" "sint n < 0" | "n \<noteq> 0" "0 \<le> sint n"
      by linarith
    then show ?thesis
    proof cases
      case 1
      with tm have "WideCharToMultiByte (traced api) CP_UTF8 WC_ERR_INVALID_CHARS utf16
          (of_nat (length utf16)) None 0 (w, []) = ((0, x), (w1,
            [Call_WideCharToMultiByte CP_UTF8 WC_ERR_INVALID_CHARS utf16
              (of_nat (length utf16)) None 0]))"
        by simp
      from Utf8FromUtf16_measure_failed [OF ne le this] show ?thesis
        using ne le m 1 by (simp add: Let_def)
    next
      case 2
      from Utf8FromUtf16_length_error [OF ne le tm 2] show ?thesis
        using ne le m 2 by (simp add: Let_def)
    next
      case 3
      from Utf8FromUtf16_fill [OF ne le tm 3 tf] show ?thesis
        using ne le m 3 by (cases "r = 0") (simp_all add: Let_def)
    qed
  qed
qed

lemma Utf16FromUtf8_calls:
  fixes api :: "'w Win32"
  shows "snd (snd (Utf16FromUtf8 (traced api) utf8 (w, []))) =
     (if utf8 = [] \<or> 2147483647 < length utf8 then []
      else
        let len = of_nat (length utf8);
            n = fst (fst (MultiByteToWideChar api CP_UTF8 MB_ERR_INVALID_CHARS utf8 len
                  None 0 w))
        in if n = 0 \<or> sint n < 0
           then [Call_MultiByteToWideChar CP_UTF8 MB_ERR_INVALID_CHARS utf8 len None 0]
           else [Call_MultiByteToWideChar CP_UTF8 MB_ERR_INVALID_CHARS utf8 len None 0,
                 Call_MultiByteToWideChar CP_UTF8 MB_ERR_INVALID_CHARS utf8 len
                   (Some (replicate (nat (sint n)) 0)) n])"
proof (cases "utf8 = []")
  case True
  then show ?thesis by (simp add: Utf16FromUtf8_def)
next
  case ne: False
  show ?thesis
  proof (cases "length utf8 \<le> 2147483647")
    case False
    then show ?thesis using ne by (simp add: Utf16FromUtf8_overflow)
  next
    case le: True
    obtain n x w1 where m: "MultiByteToWideChar api CP_UTF8 MB_ERR_INVALID_CHARS utf8
        (of_nat (length utf8)) None 0 w = ((n, x), w1)"
      by (metis surj_pair)
    obtain r y w2 where f: "MultiByteToWideChar api CP_UTF8 MB_ERR_INVALID_CHARS utf8
        (of_nat (length utf8)) (Some (replicate (nat (sint n)) 0)) n w1 = ((r, y), w2)"
      by (metis surj_pair)
    note tm = traced_MultiByteToWideChar [OF m, of "[]", simplified]
    note tf = traced_MultiByteToWideChar [OF f,
        of "[Call_MultiByteToWideChar CP_UTF8 MB_ERR_INVALID_CHARS utf8
              (of_nat (length utf8)) None 0]", simplified]
    consider "n = 0" | "n \<noteq> 0" "sint n < 0" | "n \<noteq> 0" "0 \<le> sint n"
      by linarith
    then show ?thesis
    proof cases
      case 1
      with tm have "MultiByteToWideChar (traced api) CP_UTF8 MB_ERR_INVALID_CHARS utf8
          (of_nat (length utf8)) None 0 (w, []) = ((0, x), (w1,
            [Call_MultiByteToWideChar CP_UTF8 MB_ERR_INVALID_CHARS utf8
              (of_nat (length utf8)) None 0]))"
        by simp
      from Utf16FromUtf8_measure_failed [OF ne le this] show ?thesis
        using ne le m 1 by (simp add: Let_def)
    next
      case 2
      from Utf16FromUtf8_length_error [OF ne le tm 2] show ?thesis
        using ne le m 2 by (simp add: Let_def)
    next
      case 3
      from Utf16FromUtf8_fill [OF ne le tm 3 tf] show ?thesis
        using ne le m 3 by (cases "r = 0") (simp_all add: Let_def)
    qed
  qed
qed

section \<open>Failures of the two passes\<close>

text \<open>
  Claim C5 (as amended). Take a non-empty source whose length fits an \<open>int\<close>. When
  the measure pass returns zero, the conversion throws a \<open>UnicodeConversionException\<close>
  that carries the value of \<open>GetLastError\<close> in the platform state right after that
  call and the direction of the conversion (\<open>ConversionFromUtf16ToUtf8\<close> for
  \<open>Utf8FromUtf16\<close>, \<open>ConversionFromUtf8ToUtf16\<close> for \<open>Utf16FromUtf8\<close>); so it
  does when the fill pass returns zero, with the state after the fill call. The
  messages are the four literal strings of the source, one per pass and direction.
\<close>

theorem conversion_failure_reports:
  fixes api :: "'w Win32"
  assumes "utf16 \<noteq> []" "length utf16 \<le> 2147483647"
    and "utf8 \<noteq> []" "length utf8 \<le> 2147483647"
  shows
    "(let m = WideCharToMultiByte api CP_UTF8 WC_ERR_INVALID_CHARS utf16
                (of_nat (length utf16)) None 0 w;
          n = fst (fst m); w1 = snd m;
          f = WideCharToMultiByte api CP_UTF8 WC_ERR_INVALID_CHARS utf16
                (of_nat (length utf16)) (Some (replicate (nat (sint n)) 0)) n w1;
          r = fst (fst f); w2 = snd f
      in (n = 0 \<longrightarrow> Utf8FromUtf16 api utf16 w =
            (Inl (ConversionException (UnicodeConversionException (GetLastError api w1)
               ConversionFromUtf16ToUtf8
               ''Can't get result UTF-8 string length (WideCharToMultiByte failed).'')), w1))
       \<and> (n \<noteq> 0 \<and> 0 \<le> sint n \<and> r = 0 \<longrightarrow> Utf8FromUtf16 api utf16 w =
            (Inl (ConversionException (UnicodeConversionException (GetLastError api w2)
               ConversionFromUtf16ToUtf8
               ''Can't convert from UTF-16 to UTF-8 string (WideCharToMultiByte failed).'')), w2)))
     \<and> (let m = MultiByteToWideChar api CP_UTF8 MB_ERR_INVALID_CHARS utf8
                (of_nat (length utf8)) None 0 w;
          n = fst (fst m); w1 = snd m;
          f = MultiByteToWideChar api CP_UTF8 MB_ERR_INVALID_CHARS utf8
                (of_nat (length utf8)) (Some (replicate (nat (sint n)) 0)) n w1;
          r = fst (fst f); w2 = snd f
      in (n = 0 \<longrightarrow> Utf16FromUtf8 api utf8 w =
            (Inl (ConversionException (UnicodeConversionException (GetLastError api w1)
               ConversionFromUtf8ToUtf16
               ''Can't get result UTF-16 string length (MultiByteToWideChar failed).'')), w1))
       \<and> (n \<noteq> 0 \<and> 0 \<le> sint n \<and> r = 0 \<longrightarrow> Utf16FromUtf8 api utf8 w =
            (Inl (ConversionException (UnicodeConversionException (GetLastError api w2)
               ConversionFromUtf8ToUtf16
               ''Can't convert from UTF-8 to UTF-16 string (MultiByteToWideChar failed).'')), w2)))"
proof -
  obtain n x w1 where m: "WideCharToMultiByte api CP_UTF8 WC_ERR_INVALID_CHARS utf16
      (of_nat (length utf16)) None 0 w = ((n, x), w1)"
    by (metis surj_pair)
  obtain r y w2 where f: "WideCharToMultiByte api CP_UTF8 WC_ERR_INVALID_CHARS utf16
      (of_nat (length utf16)) (Some (replicate (nat (sint n)) 0)) n w1 = ((r, y), w2)"
    by (metis surj_pair)
  obtain n' x' w1' where m': "MultiByteToWideChar api CP_UTF8 MB_ERR_INVALID_CHARS utf8
      (of_nat (length utf8)) None 0 w = ((n', x'), w1')"
    by (metis surj_pair)
  obtain r' y' w2' where f': "MultiByteToWideChar api CP_UTF8 MB_ERR_INVALID_CHARS utf8
      (of_nat (length utf8)) (Some (replicate (nat (sint n')) 0)) n' w1' = ((r', y'), w2')"
    by (metis surj_pair)
  have a: "n = 0 \<Longrightarrow> Utf8FromUtf16 api utf16 w =
      (Inl (ConversionException (UnicodeConversionException (GetLastError api w1)
         ConversionFromUtf16ToUtf8
         ''Can't get result UTF-8 string length (WideCharToMultiByte failed).'')), w1)"
    using Utf8FromUtf16_measure_failed [OF assms(1,2)] m by simp
  have b: "n \<noteq> 0 \<Longrightarrow> 0 \<le> sint n \<Longrightarrow> r = 0 \<Longrightarrow> Utf8FromUtf16 api utf16 w =
      (Inl (ConversionException (UnicodeConversionException (GetLastError api w2)
         ConversionFromUtf16ToUtf8
         ''Can't convert from UTF-16 to UTF-8 string (WideCharToMultiByte failed).'')), w2)"
    using Utf8FromUtf16_fill [OF assms(1,2) m _ _ f] by simp
  have c: "n' = 0 \<Longrightarrow> Utf16FromUtf8 api utf8 w =
      (Inl (ConversionException (UnicodeConversionException (GetLastError api w1')
         ConversionFromUtf8ToUtf16
         ''Can't get result UTF-16 string length (MultiByteToWideChar failed).'')), w1')"
    using Utf16FromUtf8_measure_failed [OF assms(3,4)] m' by simp
  have d: "n' \<noteq> 0 \<Longrightarrow> 0 \<le> sint n' \<Longrightarrow> r' = 0 \<Longrightarrow> Utf16FromUtf8 api utf8 w =
      (Inl (ConversionException (UnicodeConversionException (GetLastError api w2')
         ConversionFromUtf8ToUtf16
         ''Can't convert from UTF-8 to UTF-16 string (MultiByteToWideChar failed).'')), w2')"
    using Utf16FromUtf8_fill [OF assms(3,4) m' _ _ f'] by simp
  show ?thesis
    unfolding Let_def m f m' f' fst_conv snd_conv
    using a b c d by blast
qed

theorem conversion_failure_reports_witness:
  "Utf8FromUtf16 replay [0xD800] ([(0, [], [], 1113)], 0) =
     (Inl (ConversionException (UnicodeConversionException 1113 ConversionFromUtf16ToUtf8
        ''Can't get result UTF-8 string length (WideCharToMultiByte failed).'')), ([], 1113))
   \<and> Utf16FromUtf8 replay [0x41] ([(1, [], [], 0), (0, [], [], 122)], 0) =
     (Inl (ConversionException (UnicodeConversionException 122 ConversionFromUtf8ToUtf16
        ''Can't convert from UTF-8 to UTF-16 string (MultiByteToWideChar failed).'')), ([], 122))"
  using conversion_failure_reports [of "[0xD800]" "[0x41]" replay "([(0, [], [], 1113)], 0)"]
        conversion_failure_reports [of "[0x41]" "[0x41]" replay
           "([(1, [], [], 0), (0, [], [], 122)], 0)"]
  by (simp add: replay_simps)

text \<open>
  The claim as stated gives the message of a measure-pass failure as
  \<open>length query failed\<close>. With a lone surrogate as input and a measure pass that
  returns zero with last error 1113, the exception thrown is not the one with that
  message.
\<close>

theorem failure_message_counterexample:
  "fst (fst (WideCharToMultiByte replay CP_UTF8 WC_ERR_INVALID_CHARS [0xD800] 1 None 0
       ([(0, [], [], 1113)], 0))) = 0
   \<and> fst (Utf8FromUtf16 replay [0xD800] ([(0, [], [], 1113)], 0)) \<noteq>
       Inl (ConversionException (UnicodeConversionException 1113 ConversionFromUtf16ToUtf8
          ''length query failed''))"
  by (simp add: Utf8FromUtf16_def replay_def SafeIntFromSizet_def INT_MAX_def
      UnicodeConversionException_def c_str_def)

section \<open>Success is all or nothing\<close>

text \<open>
  Claim C6. Each conversion either throws, and then there is no output, or returns a
  string; a returned string is empty for the empty source, and for any other source its
  length is exactly the count the measure pass returned (the terminator that
  \<open>std::basic_string\<close> keeps behind the text is not part of it).
\<close>

theorem no_partial_success:
  fixes api :: "'w Win32"
  shows
    "((\<exists>e w'. Utf8FromUtf16 api utf16 w = (Inl e, w'))
      \<or> (\<exists>out w'. Utf8FromUtf16 api utf16 w = (Inr out, w')
           \<and> (if utf16 = [] then out = []
               else int (length out) =
                 sint (fst (fst (WideCharToMultiByte api CP_UTF8 WC_ERR_INVALID_CHARS utf16
                   (of_nat (length utf16)) None 0 w))))))
     \<and> ((\<exists>e w'. Utf16FromUtf8 api utf8 w = (Inl e, w'))
      \<or> (\<exists>out w'. Utf16FromUtf8 api utf8 w = (Inr out, w')
           \<and> (if utf8 = [] then out = []
               else int (length out) =
                 sint (fst (fst (MultiByteToWideChar api CP_UTF8 MB_ERR_INVALID_CHARS utf8
                   (of_nat (length utf8)) None 0 w))))))"
proof
  show "(\<exists>e w'. Utf8FromUtf16 api utf16 w = (Inl e, w'))
      \<or> (\<exists>out w'. Utf8FromUtf16 api utf16 w = (Inr out, w')
           \<and> (if utf16 = [] then out = []
               else int (length out) =
                 sint (fst (fst (WideCharToMultiByte api CP_UTF8 WC_ERR_INVALID_CHARS utf16
                   (of_nat (length utf16)) None 0 w)))))"
  proof (cases "utf16 = []")
    case True
    then show ?thesis by (simp add: Utf8FromUtf16_def)
  next
    case ne: False
    show ?thesis
    proof (cases "length utf16 \<le> 2147483647")
      case False
      then show ?thesis using ne by (simp add: Utf8FromUtf16_overflow)
    next
      case le: True
      obtain n x w1 where m: "WideCharToMultiByte api CP_UTF8 WC_ERR_INVALID_CHARS utf16
          (of_nat (length utf16)) None 0 w = ((n, x), w1)"
        by (metis surj_pair)
      obtain r y w2 where f: "WideCharToMultiByte api CP_UTF8 WC_ERR_INVALID_CHARS utf16
          (of_nat (length utf16)) (Some (replicate (nat (sint n)) 0)) n w1 = ((r, y), w2)"
        by (metis surj_pair)
      consider "n = 0" | "n \<noteq> 0" "sint n < 0" | "n \<noteq> 0" "0 \<le> sint n"
        by linarith
      then show ?thesis
      proof cases
        case 1
        with m have "WideCharToMultiByte api CP_UTF8 WC_ERR_INVALID_CHARS utf16
            (of_nat (length utf16)) None 0 w = ((0, x), w1)"
          by simp
        from Utf8FromUtf16_measure_failed [OF ne le this] show ?thesis by simp
      next
        case 2
        then show ?thesis
          using Utf8FromUtf16_length_error [OF ne le m] by simp
      next
        case 3
        then show ?thesis
          using Utf8FromUtf16_fill [OF ne le m _ _ f] ne m by simp
      qed
    qed
  qed
next
  show "(\<exists>e w'. Utf16FromUtf8 api utf8 w = (Inl e, w'))
      \<or> (\<exists>out w'. Utf16FromUtf8 api utf8 w = (Inr out, w')
           \<and> (if utf8 = [] then out = []
               else int (length out) =
                 sint (fst (fst (MultiByteToWideChar api CP_UTF8 MB_ERR_INVALID_CHARS utf8
                   (of_nat (length utf8)) None 0 w)))))"
  proof (cases "utf8 = []")
    case True
    then show ?thesis by (simp add: Utf16FromUtf8_def)
  next
    case ne: False
    show ?thesis
    proof (cases "length utf8 \<le> 2147483647")
      case False
      then show ?thesis using ne by (simp add: Utf16FromUtf8_overflow)
    next
      case le: True
      obtain n x w1 where m: "MultiByteToWideChar api CP_UTF8 MB_ERR_INVALID_CHARS utf8
          (of_nat (length utf8)) None 0 w = ((n, x), w1)"
        by (metis surj_pair)
      obtain r y w2 where f: "MultiByteToWideChar api CP_UTF8 MB_ERR_INVALID_CHARS utf8
          (of_nat (length utf8)) (Some (replicate (nat (sint n)) 0)) n w1 = ((r, y), w2)"
        by (metis surj_pair)
      consider "n = 0" | "n \<noteq> 0" "sint n < 0" | "n \<noteq> 0" "0 \<le> sint n"
        by linarith
      then show ?thesis
      proof cases
        case 1
        with m have "MultiByteToWideChar api CP_UTF8 MB_ERR_INVALID_CHARS utf8
            (of_nat (length utf8)) None 0 w = ((0, x), w1)"
          by simp
        from Utf16FromUtf8_measure_failed [OF ne le this] show ?thesis by simp
      next
        case 2
        then show ?thesis
          using Utf16FromUtf8_length_error [OF ne le m] by simp
      next
        case 3
        then show ?thesis
          using Utf16FromUtf8_fill [OF ne le m _ _ f] ne m by simp
      qed
    qed
  qed
qed

theorem no_partial_success_witness:
  "Utf8FromUtf16 replay [0x5B66] ([(3, [], [], 0), (3, [0xE5, 0xAD, 0xA6], [], 0)], 0)
     = (Inr [0xE5, 0xAD, 0xA6], ([], 0))
   \<and> (\<exists>e w'. Utf16FromUtf8 replay [0xE5, 0x41] ([(0, [], [], 1113)], 0) = (Inl e, w'))"
  using no_partial_success [of replay "[0x5B66]"
          "([(3, [], [], 0), (3, [0xE5, 0xAD, 0xA6], [], 0)], 0)" "[0xE5, 0x41]"]
        no_partial_success [of replay "[0x5B66]" "([(0, [], [], 1113)], 0)" "[0xE5, 0x41]"]
  by (simp add: Utf8FromUtf16_def Utf16FromUtf8_def replay_simps SafeIntFromSizet_def INT_MAX_def
      string_ctor_def poke_def)

section \<open>The order of the steps\<close>

text \<open>
  Claim C7. On a platform that records its calls, the calls a conversion makes are, in
  this order: none, for the empty source and for a source longer than \<open>INT_MAX\<close> (the
  length cast throws before any call); otherwise the measure call, with no destination
  and capacity 0; and after it, unless the measured count is zero or negative, the fill
  call, whose destination is the buffer allocated with the measured count (all zero)
  and whose capacity is that count. So the cast precedes every call, the measure pass
  precedes the allocation, and the allocation precedes the fill pass.
\<close>

theorem steps_in_fixed_order:
  fixes api :: "'w Win32"
  shows
    "snd (snd (Utf8FromUtf16 (traced api) utf16 (w, []))) =
       (if utf16 = [] \<or> 2147483647 < length utf16 then []
        else
          let len = of_nat (length utf16);
              n = fst (fst (WideCharToMultiByte api CP_UTF8 WC_ERR_INVALID_CHARS utf16 len
                    None 0 w))
          in if n = 0 \<or> sint n < 0
             then [Call_WideCharToMultiByte CP_UTF8 WC_ERR_INVALID_CHARS utf16 len None 0]
             else [Call_WideCharToMultiByte CP_UTF8 WC_ERR_INVALID_CHARS utf16 len None 0,
                   Call_WideCharToMultiByte CP_UTF8 WC_ERR_INVALID_CHARS utf16 len
                     (Some (replicate (nat (sint n)) 0)) n])
     \<and> snd (snd (Utf16FromUtf8 (traced api) utf8 (w, []))) =
       (if utf8 = [] \<or> 2147483647 < length utf8 then []
        else
          let len = of_nat (length utf8);
              n = fst (fst (MultiByteToWideChar api CP_UTF8 MB_ERR_INVALID_CHARS utf8 len
                    None 0 w))
          in if n = 0 \<or> sint n < 0
             then [Call_MultiByteToWideChar CP_UTF8 MB_ERR_INVALID_CHARS utf8 len None 0]
             else [Call_MultiByteToWideChar CP_UTF8 MB_ERR_INVALID_CHARS utf8 len None 0,
                   Call_MultiByteToWideChar CP_UTF8 MB_ERR_INVALID_CHARS utf8 len
                     (Some (replicate (nat (sint n)) 0)) n])
     \<and> (2147483647 < length utf16 \<longrightarrow>
          Utf8FromUtf16 (traced api) utf16 (w, []) = (Inl (overflow_error
            ''Input size_t value is too large: size_t-length doesn't fit into an int.''),
            (w, [])))
     \<and> (2147483647 < length utf8 \<longrightarrow>
          Utf16FromUtf8 (traced api) utf8 (w, []) = (Inl (overflow_error
            ''Input size_t value is too large: size_t-length doesn't fit into an int.''),
            (w, [])))"
proof -
  have "2147483647 < length utf16 \<Longrightarrow> utf16 \<noteq> []"
    and "2147483647 < length utf8 \<Longrightarrow> utf8 \<noteq> []"
    by auto
  then show ?thesis
    using Utf8FromUtf16_calls [of api utf16 w] Utf16FromUtf8_calls [of api utf8 w]
    by (simp add: Utf8FromUtf16_overflow Utf16FromUtf8_overflow)
qed

theorem steps_in_fixed_order_witness:
  "snd (snd (Utf8FromUtf16 (traced replay) [0x5B66]
       (([(3, [], [], 0), (3, [0xE5, 0xAD, 0xA6], [], 0)], 0), []))) =
     [Call_WideCharToMultiByte CP_UTF8 WC_ERR_INVALID_CHARS [0x5B66] 1 None 0,
      Call_WideCharToMultiByte CP_UTF8 WC_ERR_INVALID_CHARS [0x5B66] 1
        (Some (replicate 3 0)) 3]
   \<and> Utf16FromUtf8 (traced replay) (replicate 2147483648 0x41)
       (([(3, [], [], 0), (3, [0xE5, 0xAD, 0xA6], [], 0)], 0), []) =
     (Inl (overflow_error
        ''Input size_t value is too large: size_t-length doesn't fit into an int.''),
      (([(3, [], [], 0), (3, [0xE5, 0xAD, 0xA6], [], 0)], 0), []))"
  using steps_in_fixed_order [of replay "[0x5B66]"
          "([(3, [], [], 0), (3, [0xE5, 0xAD, 0xA6], [], 0)], 0)" "replicate 2147483648 0x41"]
  by (simp add: replay_simps)

section \<open>The count returned by the fill pass\<close>

text \<open>
  Claim C10. The result of the fill pass is only compared with zero. Whenever the fill
  pass returns a non-zero count that differs from the count of the measure pass, the
  conversion still returns normally, and the returned string has the length the
  measure pass reported: the buffer with the written units over its start.
\<close>

theorem fill_count_is_only_tested_for_zero:
  fixes api :: "'w Win32"
  assumes "utf16 \<noteq> []" "length utf16 \<le> 2147483647"
    and "utf8 \<noteq> []" "length utf8 \<le> 2147483647"
  shows
    "(let m = WideCharToMultiByte api CP_UTF8 WC_ERR_INVALID_CHARS utf16
                (of_nat (length utf16)) None 0 w;
          n = fst (fst m); w1 = snd m;
          f = WideCharToMultiByte api CP_UTF8 WC_ERR_INVALID_CHARS utf16
                (of_nat (length utf16)) (Some (replicate (nat (sint n)) 0)) n w1;
          r = fst (fst f); written = snd (fst f); w2 = snd f
      in n \<noteq> 0 \<and> 0 \<le> sint n \<and> r \<noteq> 0 \<and> r \<noteq> n \<longrightarrow>
           Utf8FromUtf16 api utf16 w = (Inr (poke (replicate (nat (sint n)) 0) written), w2)
           \<and> int (length (poke (replicate (nat (sint n)) (0::cchar)) written)) = sint n)
     \<and> (let m = MultiByteToWideChar api CP_UTF8 MB_ERR_INVALID_CHARS utf8
                (of_nat (length utf8)) None 0 w;
          n = fst (fst m); w1 = snd m;
          f = MultiByteToWideChar api CP_UTF8 MB_ERR_INVALID_CHARS utf8
                (of_nat (length utf8)) (Some (replicate (nat (sint n)) 0)) n w1;
          r = fst (fst f); written = snd (fst f); w2 = snd f
      in n \<noteq> 0 \<and> 0 \<le> sint n \<and> r \<noteq> 0 \<and> r \<noteq> n \<longrightarrow>
           Utf16FromUtf8 api utf8 w = (Inr (poke (replicate (nat (sint n)) 0) written), w2)
           \<and> int (length (poke (replicate (nat (sint n)) (0::wchar_t)) written)) = sint n)"
proof -
  obtain n x w1 where m: "WideCharToMultiByte api CP_UTF8 WC_ERR_INVALID_CHARS utf16
      (of_nat (length utf16)) None 0 w = ((n, x), w1)"
    by (metis surj_pair)
  obtain r y w2 where f: "WideCharToMultiByte api CP_UTF8 WC_ERR_INVALID_CHARS utf16
      (of_nat (length utf16)) (Some (replicate (nat (sint n)) 0)) n w1 = ((r, y), w2)"
    by (metis surj_pair)
  obtain n' x' w1' where m': "MultiByteToWideChar api CP_UTF8 MB_ERR_INVALID_CHARS utf8
      (of_nat (length utf8)) None 0 w = ((n', x'), w1')"
    by (metis surj_pair)
  obtain r' y' w2' where f': "MultiByteToWideChar api CP_UTF8 MB_ERR_INVALID_CHARS utf8
      (of_nat (length utf8)) (Some (replicate (nat (sint n')) 0)) n' w1' = ((r', y'), w2')"
    by (metis surj_pair)
  have a: "n \<noteq> 0 \<Longrightarrow> 0 \<le> sint n \<Longrightarrow> r \<noteq> 0 \<Longrightarrow>
      Utf8FromUtf16 api utf16 w = (Inr (poke (replicate (nat (sint n)) 0) y), w2)"
    using Utf8FromUtf16_fill [OF assms(1,2) m _ _ f] by simp
  have b: "n' \<noteq> 0 \<Longrightarrow> 0 \<le> sint n' \<Longrightarrow> r' \<noteq> 0 \<Longrightarrow>
      Utf16FromUtf8 api utf8 w = (Inr (poke (replicate (nat (sint n')) 0) y'), w2')"
    using Utf16FromUtf8_fill [OF assms(3,4) m' _ _ f'] by simp
  show ?thesis
    unfolding Let_def m f m' f' fst_conv snd_conv
    using a b by simp
qed

theorem fill_count_is_only_tested_for_zero_witness:
  "Utf8FromUtf16 replay [0x5B66] ([(3, [], [], 0), (2, [0xE5, 0xAD], [], 0)], 0)
     = (Inr [0xE5, 0xAD, 0], ([], 0))
   \<and> Utf16FromUtf8 replay [0xE5, 0xAD, 0xA6] ([(1, [], [], 0), (2, [], [0x5B66, 0x41], 0)], 0)
     = (Inr [0x5B66], ([], 0))"
  using fill_count_is_only_tested_for_zero [of "[0x5B66]" "[0xE5, 0xAD, 0xA6]" replay
          "([(3, [], [], 0), (2, [0xE5, 0xAD], [], 0)], 0)"]
        fill_count_is_only_tested_for_zero [of "[0x5B66]" "[0xE5, 0xAD, 0xA6]" replay
          "([(1, [], [], 0), (2, [], [0x5B66, 0x41], 0)], 0)"]
  by (simp add: replay_simps poke_def)

section \<open>The conversions on the modelled primitive\<close>

lemma poke_whole [simp]: "length written = n \<Longrightarrow> poke (replicate n c) written = written"
  by (simp add: poke_def)

lemma strict_flags [simp]:
  "WC_ERR_INVALID_CHARS AND WC_ERR_INVALID_CHARS \<noteq> 0"
  "MB_ERR_INVALID_CHARS AND MB_ERR_INVALID_CHARS \<noteq> 0"
  "WC_ERR_INVALID_CHARS \<noteq> 0"
  "MB_ERR_INVALID_CHARS \<noteq> 0"
  by (simp_all add: WC_ERR_INVALID_CHARS_def MB_ERR_INVALID_CHARS_def)

lemma source_length_int:
  assumes "src \<noteq> []" "length src \<le> 2147483647"
  shows "\<not> sint (of_nat (length src) :: cint) \<le> 0"
    and "take (nat (sint (of_nat (length src) :: cint))) src = src"
  using assms by (simp_all add: sint_of_nat_fits)

lemma answer_measure:
  assumes "length out \<le> 2147483647"
  shows "answer (Some out) None 0 w = ((of_nat (length out), []), w)"
  using assms by (simp add: answer_def INT_MAX_def)

lemma answer_fill:
  assumes "length out \<le> 2147483647" "out \<noteq> []"
  shows "answer (Some out) (Some buf) (of_nat (length out)) w = ((of_nat (length out), out), w)"
  using assms by (simp add: answer_def INT_MAX_def sint_of_nat_fits of_nat_fits_eq_0)

lemma answer_malformed:
  "answer None dest capacity w = ((0, []), ERROR_NO_UNICODE_TRANSLATION)"
  by (simp add: answer_def)

lemma win32_simps [simp]:
  "WideCharToMultiByte win32 = win32_WideCharToMultiByte"
  "MultiByteToWideChar win32 = win32_MultiByteToWideChar"
  "GetLastError win32 w = w"
  by (simp_all add: win32_def)

lemma Utf8FromUtf16_win32_ok:
  assumes "utf16 \<noteq> []" "length utf16 \<le> 2147483647"
    and "transcode_utf16_to_utf8 True utf16 = Some out"
    and "out \<noteq> []" "length out \<le> 2147483647"
  shows "Utf8FromUtf16 win32 utf16 w = (Inr out, w)"
proof -
  have n0: "(of_nat (length out) :: cint) \<noteq> 0"
    using assms(4,5) by (simp add: of_nat_fits_eq_0)
  have n1: "0 \<le> sint (of_nat (length out) :: cint)"
    using assms(5) by (simp add: sint_of_nat_fits)
  have m: "WideCharToMultiByte win32 CP_UTF8 WC_ERR_INVALID_CHARS utf16 (of_nat (length utf16))
             None 0 w = ((of_nat (length out), []), w)"
    using assms by (simp add: win32_WideCharToMultiByte_def source_length_int answer_measure)
  have f: "WideCharToMultiByte win32 CP_UTF8 WC_ERR_INVALID_CHARS utf16 (of_nat (length utf16))
             (Some (replicate (nat (sint (of_nat (length out) :: cint))) 0)) (of_nat (length out)) w
           = ((of_nat (length out), out), w)"
    using assms n1
    by (simp add: win32_WideCharToMultiByte_def source_length_int answer_fill)
  show ?thesis
    using Utf8FromUtf16_fill [OF assms(1,2) m n0 n1 f] n0 assms(5)
    by (simp add: sint_of_nat_fits)
qed

lemma Utf8FromUtf16_win32_malformed:
  assumes "utf16 \<noteq> []" "length utf16 \<le> 2147483647"
    and "transcode_utf16_to_utf8 True utf16 = None"
  shows "Utf8FromUtf16 win32 utf16 w =
     (Inl (ConversionException (UnicodeConversionException ERROR_NO_UNICODE_TRANSLATION
        ConversionFromUtf16ToUtf8
        ''Can't get result UTF-8 string length (WideCharToMultiByte failed).'')),
      ERROR_NO_UNICODE_TRANSLATION)"
proof -
  have m: "WideCharToMultiByte win32 CP_UTF8 WC_ERR_INVALID_CHARS utf16 (of_nat (length utf16))
             None 0 w = ((0, []), ERROR_NO_UNICODE_TRANSLATION)"
    using assms by (simp add: win32_WideCharToMultiByte_def source_length_int answer_malformed)
  show ?thesis
    using Utf8FromUtf16_measure_failed [OF assms(1,2) m] by simp
qed

lemma Utf16FromUtf8_win32_ok:
  assumes "utf8 \<noteq> []" "length utf8 \<le> 2147483647"
    and "transcode_utf8_to_utf16 True utf8 = Some out"
    and "out \<noteq> []" "length out \<le> 2147483647"
  shows "Utf16FromUtf8 win32 utf8 w = (Inr out, w)"
proof -
  have n0: "(of_nat (length out) :: cint) \<noteq> 0"
    using assms(4,5) by (simp add: of_nat_fits_eq_0)
  have n1: "0 \<le> sint (of_nat (length out) :: cint)"
    using assms(5) by (simp add: sint_of_nat_fits)
  have m: "MultiByteToWideChar win32 CP_UTF8 MB_ERR_INVALID_CHARS utf8 (of_nat (length utf8))
             None 0 w = ((of_nat (length out), []), w)"
    using assms by (simp add: win32_MultiByteToWideChar_def source_length_int answer_measure)
  have f: "MultiByteToWideChar win32 CP_UTF8 MB_ERR_INVALID_CHARS utf8 (of_nat (length utf8))
             (Some (replicate (nat (sint (of_nat (length out) :: cint))) 0)) (of_nat (length out)) w
           = ((of_nat (length out), out), w)"
    using assms n1
    by (simp add: win32_MultiByteToWideChar_def source_length_int answer_fill)
  show ?thesis
    using Utf16FromUtf8_fill [OF assms(1,2) m n0 n1 f] n0 assms(5)
    by (simp add: sint_of_nat_fits)
qed

lemma Utf16FromUtf8_win32_malformed:
  assumes "utf8 \<noteq> []" "length utf8 \<le> 2147483647"
    and "transcode_utf8_to_utf16 True utf8 = None"
  shows "Utf16FromUtf8 win32 utf8 w =
     (Inl (ConversionException (UnicodeConversionException ERROR_NO_UNICODE_TRANSLATION
        ConversionFromUtf8ToUtf16
        ''Can't get result UTF-16 string length (MultiByteToWideChar failed).'')),
      ERROR_NO_UNICODE_TRANSLATION)"
proof -
  have m: "MultiByteToWideChar win32 CP_UTF8 MB_ERR_INVALID_CHARS utf8 (of_nat (length utf8))
             None 0 w = ((0, []), ERROR_NO_UNICODE_TRANSLATION)"
    using assms by (simp add: win32_MultiByteToWideChar_def source_length_int answer_malformed)
  show ?thesis
    using Utf16FromUtf8_measure_failed [OF assms(1,2) m] by simp
qed

section \<open>UTF-16 text and its code points\<close>

lemma unat_byte: "n < 256 \<Longrightarrow> unat (of_nat n :: cchar) = n"
  by (simp add: unat_of_nat)

lemma unat_unit_bound: "unat (u :: wchar_t) < 65536"
  using unsigned_less [of u, where ?'a = nat] by simp

lemma utf16_next_cases:
  assumes "utf16_next u us = Some (cp, k)"
  obtains
    (single) "\<not> is_high_surrogate u" "\<not> is_low_surrogate u" "cp = unat u" "k = 0"
  | (pair) l r where "is_high_surrogate u" "is_low_surrogate l" "us = l # r"
      "cp = 0x10000 + (unat u - 0xD800) * 0x400 + (unat l - 0xDC00)" "k = 1"
  using assms
  by (auto simp: utf16_next_def split: if_splits list.splits)

lemma pair_value:
  assumes "is_high_surrogate u" "is_low_surrogate l"
  defines "cp \<equiv> 0x10000 + (unat u - 0xD800) * 0x400 + (unat l - 0xDC00)"
  shows "0x10000 \<le> cp" "cp < 0x110000"
    "(cp - 0x10000) div 0x400 = unat u - 0xD800"
    "(cp - 0x10000) mod 0x400 = unat l - 0xDC00"
proof -
  from assms(1) have u: "55296 \<le> unat u" "unat u < 56320"
    by (simp_all add: is_high_surrogate_def)
  from assms(2) have l: "56320 \<le> unat l" "unat l < 57344"
    by (simp_all add: is_low_surrogate_def)
  show "0x10000 \<le> cp" by (simp add: cp_def)
  show "cp < 0x110000" using u l by (simp add: cp_def)
  have "cp - 0x10000 = (unat u - 0xD800) * 0x400 + (unat l - 0xDC00)"
    by (simp add: cp_def)
  moreover have "unat l - 0xDC00 < 0x400" using l by simp
  ultimately show "(cp - 0x10000) div 0x400 = unat u - 0xD800"
    and "(cp - 0x10000) mod 0x400 = unat l - 0xDC00"
    by simp_all
qed

lemma utf16_next_sound:
  assumes "utf16_next u us = Some (cp, k)"
  shows "scalar_value cp" and "utf16_encode cp = u # take k us" and "k \<le> length us"
    and "Suc k \<le> length (utf8_encode cp)"
proof -
  from assms have "scalar_value cp \<and> utf16_encode cp = u # take k us \<and> k \<le> length us
      \<and> Suc k \<le> length (utf8_encode cp)"
  proof (cases rule: utf16_next_cases)
    case single
    have "unat u < 65536" by (rule unat_unit_bound)
    with single show ?thesis
      by (auto simp: scalar_value_def is_high_surrogate_def is_low_surrogate_def
          utf16_encode_def utf8_encode_def)
  next
    case (pair l r)
    note pv = pair_value [OF pair(1,2)]
    from pair(1) have u: "55296 \<le> unat u" by (simp add: is_high_surrogate_def)
    from pair(2) have l: "56320 \<le> unat l" by (simp add: is_low_surrogate_def)
    have "utf16_encode cp = [u, l]"
      using pv u l unfolding pair(4) [symmetric]
      by (simp add: utf16_encode_def)
    moreover have "scalar_value cp"
      using pv unfolding pair(4) [symmetric] by (simp add: scalar_value_def)
    moreover have "length (utf8_encode cp) = 4"
      using pv unfolding pair(4) [symmetric] by (simp add: utf8_encode_def)
    ultimately show ?thesis using pair by simp
  qed
  then show "scalar_value cp" and "utf16_encode cp = u # take k us" and "k \<le> length us"
    and "Suc k \<le> length (utf8_encode cp)"
    by simp_all
qed

lemma utf16_decode_strict_Cons:
  "utf16_decode True (u # us) =
     (case utf16_next u us of
        Some (cp, k) \<Rightarrow> map_option ((#) cp) (utf16_decode True (drop k us))
      | None \<Rightarrow> None)"
  by simp

lemma utf16_decode_strict_sound:
  "utf16_decode True s = Some cps \<Longrightarrow>
     list_all scalar_value cps \<and> concat (map utf16_encode cps) = s
     \<and> length s \<le> length (concat (map utf8_encode cps))"
proof (induction "length s" arbitrary: s cps rule: less_induct)
  case less
  show ?case
  proof (cases s)
    case Nil
    with less.prems show ?thesis by simp
  next
    case (Cons u us)
    with less.prems obtain cp k cps' where
      nx: "utf16_next u us = Some (cp, k)" and
      rest: "utf16_decode True (drop k us) = Some cps'" and
      cps: "cps = cp # cps'"
      by (auto simp: utf16_decode_strict_Cons split: option.splits)
    note snd = utf16_next_sound [OF nx]
    have "length (drop k us) < length s" using Cons by simp
    from less.hyps [OF this rest]
    have ih: "list_all scalar_value cps'" "concat (map utf16_encode cps') = drop k us"
      "length (drop k us) \<le> length (concat (map utf8_encode cps'))"
      by simp_all
    have "concat (map utf16_encode cps) = u # take k us @ drop k us"
      using snd(2) ih(2) cps by simp
    moreover have "length s \<le> length (concat (map utf8_encode cps))"
      using snd(3,4) ih(3) cps Cons by simp
    ultimately show ?thesis using snd(1) ih(1) cps Cons by simp
  qed
qed

lemma utf16_decode_strict_iff: "utf16_decode True s \<noteq> None \<longleftrightarrow> valid_utf16 s"
proof (induction s rule: valid_utf16.induct)
  case 1
  show ?case by simp
next
  case (2 u)
  show ?case by (simp add: utf16_next_def)
next
  case (3 u l us)
  show ?case
  proof (cases "is_high_surrogate u")
    case True
    with 3 show ?thesis by (simp add: utf16_next_def)
  next
    case False
    with 3 show ?thesis by (simp add: utf16_next_def)
  qed
qed

section \<open>UTF-8 text and its code points\<close>

lemma split3: "(cp::nat) div 0x1000 * 0x1000 + cp div 0x40 mod 0x40 * 0x40 + cp mod 0x40 = cp"
proof -
  have a: "cp mod 0x1000 = 0x40 * (cp div 0x40 mod 0x40) + cp mod 0x40"
    using mod_mult2_eq [of cp "0x40" "0x40"] by simp
  have "cp div 0x1000 * 0x1000 + cp div 0x40 mod 0x40 * 0x40 + cp mod 0x40
      = cp div 0x1000 * 0x1000 + cp mod 0x1000"
    unfolding a by simp
  also have "\<dots> = cp" by (rule div_mult_mod_eq)
  finally show ?thesis .
qed

lemma split4: "(cp::nat) div 0x40000 * 0x40000 + cp div 0x1000 mod 0x40 * 0x1000
        + cp div 0x40 mod 0x40 * 0x40 + cp mod 0x40 = cp"
proof -
  have a: "cp mod 0x40000 = 0x1000 * (cp div 0x1000 mod 0x40) + cp mod 0x1000"
    using mod_mult2_eq [of cp "0x1000" "0x40"] by simp
  have b: "cp mod 0x1000 = 0x40 * (cp div 0x40 mod 0x40) + cp mod 0x40"
    using mod_mult2_eq [of cp "0x40" "0x40"] by simp
  have "cp div 0x40000 * 0x40000 + cp div 0x1000 mod 0x40 * 0x1000
        + cp div 0x40 mod 0x40 * 0x40 + cp mod 0x40
      = cp div 0x40000 * 0x40000 + cp mod 0x40000"
    unfolding a b by simp
  also have "\<dots> = cp" by (rule div_mult_mod_eq)
  finally show ?thesis .
qed

lemma utf8_next_1:
  assumes "unat b0 < 0x80"
  shows "utf8_next b0 rest = Some (unat b0, 0)"
  using assms by (simp add: utf8_next_def)

lemma utf8_next_2:
  assumes "unat b0 = 0xC0 + h" "h < 0x20" "unat b1 = 0x80 + l" "l < 0x40"
    and "0x80 \<le> h * 0x40 + l"
  shows "utf8_next b0 (b1 # rest) = Some (h * 0x40 + l, 1)"
  using assms by (simp add: utf8_next_def is_continuation_def)

lemma utf8_next_3:
  assumes "unat b0 = 0xE0 + h" "h < 0x10" "unat b1 = 0x80 + m" "m < 0x40"
    and "unat b2 = 0x80 + l" "l < 0x40"
    and "0x800 \<le> h * 0x1000 + m * 0x40 + l"
    and "\<not> (0xD800 \<le> h * 0x1000 + m * 0x40 + l \<and> h * 0x1000 + m * 0x40 + l < 0xE000)"
  shows "utf8_next b0 (b1 # b2 # rest) = Some (h * 0x1000 + m * 0x40 + l, 2)"
  using assms by (simp add: utf8_next_def is_continuation_def)

lemma utf8_next_4:
  assumes "unat b0 = 0xF0 + h" "h < 0x8" "unat b1 = 0x80 + m2" "m2 < 0x40"
    and "unat b2 = 0x80 + m1" "m1 < 0x40" "unat b3 = 0x80 + l" "l < 0x40"
    and "0x10000 \<le> h * 0x40000 + m2 * 0x1000 + m1 * 0x40 + l"
    and "h * 0x40000 + m2 * 0x1000 + m1 * 0x40 + l < 0x110000"
  shows "utf8_next b0 (b1 # b2 # b3 # rest)
           = Some (h * 0x40000 + m2 * 0x1000 + m1 * 0x40 + l, 3)"
  using assms by (simp add: utf8_next_def is_continuation_def)

lemma utf8_next_encode:
  assumes "scalar_value cp"
  shows "\<exists>b0 bs. utf8_encode cp = b0 # bs \<and> utf8_next b0 (bs @ rest) = Some (cp, length bs)"
proof -
  from assms have top: "cp < 0x110000" and ns: "\<not> (0xD800 \<le> cp \<and> cp < 0xE000)"
    by (simp_all add: scalar_value_def)
  define b1' where "b1' = (of_nat (0x80 + cp div 0x1000 mod 0x40) :: cchar)"
  define b2' where "b2' = (of_nat (0x80 + cp div 0x40 mod 0x40) :: cchar)"
  define b3' where "b3' = (of_nat (0x80 + cp mod 0x40) :: cchar)"
  have u1: "unat b1' = 0x80 + cp div 0x1000 mod 0x40"
    unfolding b1'_def by (rule unat_byte) simp
  have u2: "unat b2' = 0x80 + cp div 0x40 mod 0x40"
    unfolding b2'_def by (rule unat_byte) simp
  have u3: "unat b3' = 0x80 + cp mod 0x40"
    unfolding b3'_def by (rule unat_byte) simp
  consider "cp < 0x80" | "0x80 \<le> cp" "cp < 0x800" | "0x800 \<le> cp" "cp < 0x10000"
    | "0x10000 \<le> cp"
    by linarith
  then show ?thesis
  proof cases
    case 1
    define b0 where "b0 = (of_nat cp :: cchar)"
    have u0: "unat b0 = cp"
      unfolding b0_def by (rule unat_byte) (use 1 in simp)
    have enc: "utf8_encode cp = [b0]"
      using 1 by (simp add: utf8_encode_def b0_def)
    show ?thesis
      using utf8_next_1 [of b0 rest] u0 1 enc by simp
  next
    case 2
    define b0 where "b0 = (of_nat (0xC0 + cp div 0x40) :: cchar)"
    have d: "cp div 0x40 < 0x20" using 2 by simp
    have u0: "unat b0 = 0xC0 + cp div 0x40"
      unfolding b0_def by (rule unat_byte) (use d in simp)
    have enc: "utf8_encode cp = [b0, b3']"
      using 2 by (simp add: utf8_encode_def b0_def b3'_def)
    have v: "cp div 0x40 * 0x40 + cp mod 0x40 = cp" by simp
    have "utf8_next b0 (b3' # rest) = Some (cp div 0x40 * 0x40 + cp mod 0x40, 1)"
      by (rule utf8_next_2 [OF u0 d u3]) (use 2 in simp_all)
    then show ?thesis
      using enc v by simp
  next
    case 3
    define b0 where "b0 = (of_nat (0xE0 + cp div 0x1000) :: cchar)"
    have d: "cp div 0x1000 < 0x10" using 3 by simp
    have u0: "unat b0 = 0xE0 + cp div 0x1000"
      unfolding b0_def by (rule unat_byte) (use d in simp)
    have enc: "utf8_encode cp = [b0, b2', b3']"
      using 3 by (simp add: utf8_encode_def b0_def b2'_def b3'_def)
    have v: "cp div 0x1000 * 0x1000 + cp div 0x40 mod 0x40 * 0x40 + cp mod 0x40 = cp"
      by (rule split3)
    have "utf8_next b0 (b2' # b3' # rest)
        = Some (cp div 0x1000 * 0x1000 + cp div 0x40 mod 0x40 * 0x40 + cp mod 0x40, 2)"
      by (rule utf8_next_3 [OF u0 d u2 _ u3]) (use 3 ns v in simp_all)
    then show ?thesis
      using enc v by simp
  next
    case 4
    define b0 where "b0 = (of_nat (0xF0 + cp div 0x40000) :: cchar)"
    have d: "cp div 0x40000 < 0x8" using top by simp
    have u0: "unat b0 = 0xF0 + cp div 0x40000"
      unfolding b0_def by (rule unat_byte) (use d in simp)
    have enc: "utf8_encode cp = [b0, b1', b2', b3']"
      using 4 by (simp add: utf8_encode_def b0_def b1'_def b2'_def b3'_def)
    have v: "cp div 0x40000 * 0x40000 + cp div 0x1000 mod 0x40 * 0x1000
        + cp div 0x40 mod 0x40 * 0x40 + cp mod 0x40 = cp"
      by (rule split4)
    have "utf8_next b0 (b1' # b2' # b3' # rest)
        = Some (cp div 0x40000 * 0x40000 + cp div 0x1000 mod 0x40 * 0x1000
            + cp div 0x40 mod 0x40 * 0x40 + cp mod 0x40, 3)"
      by (rule utf8_next_4 [OF u0 d u1 _ u2 _ u3]) (use 4 top v in simp_all)
    then show ?thesis
      using enc v by simp
  qed
qed

subsection \<open>The byte ranges of well-formed sequences\<close>

lemma table2:
  fixes x y :: nat
  assumes "192 \<le> x" "x < 224"
  shows "128 \<le> y \<and> y < 192 \<and> 128 \<le> (x - 192) * 64 + (y - 128)
     \<longleftrightarrow> 194 \<le> x \<and> x \<le> 223 \<and> 128 \<le> y \<and> y \<le> 191"
  using assms by linarith

lemma table3:
  fixes x y z :: nat
  assumes "224 \<le> x" "x < 240"
  shows "128 \<le> y \<and> y < 192 \<and> 128 \<le> z \<and> z < 192
         \<and> 2048 \<le> (x - 224) * 4096 + (y - 128) * 64 + (z - 128)
         \<and> \<not> (55296 \<le> (x - 224) * 4096 + (y - 128) * 64 + (z - 128)
              \<and> (x - 224) * 4096 + (y - 128) * 64 + (z - 128) < 57344)
     \<longleftrightarrow> (if x = 224 then 160 else 128) \<le> y \<and> y \<le> (if x = 237 then 159 else 191)
         \<and> 128 \<le> z \<and> z \<le> 191"
  using assms by (auto split: if_splits)

lemma table4:
  fixes x y z t :: nat
  assumes "240 \<le> x" "x < 248"
  shows "128 \<le> y \<and> y < 192 \<and> 128 \<le> z \<and> z < 192 \<and> 128 \<le> t \<and> t < 192
         \<and> 65536 \<le> (x - 240) * 262144 + (y - 128) * 4096 + (z - 128) * 64 + (t - 128)
         \<and> (x - 240) * 262144 + (y - 128) * 4096 + (z - 128) * 64 + (t - 128) < 1114112
     \<longleftrightarrow> x \<le> 244 \<and> (if x = 240 then 144 else 128) \<le> y
         \<and> y \<le> (if x = 244 then 143 else 191)
         \<and> 128 \<le> z \<and> z \<le> 191 \<and> 128 \<le> t \<and> t \<le> 191"
  using assms by (auto split: if_splits)

lemma between_unat: "between lo hi b \<longleftrightarrow> unat lo \<le> unat b \<and> unat b \<le> unat hi"
  by (simp add: between_def word_le_nat_alt)

lemma byte_eq_unat: "(b :: cchar) = c \<longleftrightarrow> unat b = unat c"
  by (simp add: word_unat_eq_iff)

lemma well_formed_utf8_Cons_unat:
  "well_formed_utf8 (b0 # bs) =
     (if unat b0 \<le> 0x7F then well_formed_utf8 bs
      else if 0xC2 \<le> unat b0 \<and> unat b0 \<le> 0xDF then
        (case bs of
           b1 # r \<Rightarrow> 0x80 \<le> unat b1 \<and> unat b1 \<le> 0xBF \<and> well_formed_utf8 r
         | _ \<Rightarrow> False)
      else if 0xE0 \<le> unat b0 \<and> unat b0 \<le> 0xEF then
        (case bs of
           b1 # b2 # r \<Rightarrow>
             (if unat b0 = 0xE0 then 0xA0 else 0x80) \<le> unat b1
             \<and> unat b1 \<le> (if unat b0 = 0xED then 0x9F else 0xBF)
             \<and> 0x80 \<le> unat b2 \<and> unat b2 \<le> 0xBF \<and> well_formed_utf8 r
         | _ \<Rightarrow> False)
      else if 0xF0 \<le> unat b0 \<and> unat b0 \<le> 0xF4 then
        (case bs of
           b1 # b2 # b3 # r \<Rightarrow>
             (if unat b0 = 0xF0 then 0x90 else 0x80) \<le> unat b1
             \<and> unat b1 \<le> (if unat b0 = 0xF4 then 0x8F else 0xBF)
             \<and> 0x80 \<le> unat b2 \<and> unat b2 \<le> 0xBF
             \<and> 0x80 \<le> unat b3 \<and> unat b3 \<le> 0xBF \<and> well_formed_utf8 r
         | _ \<Rightarrow> False)
      else False)"
  by (simp add: between_unat word_le_nat_alt byte_eq_unat [of b0] split: list.splits)

declare well_formed_utf8.simps(2) [simp del]

lemma well_formed_utf8_step:
  "well_formed_utf8 (b0 # bs) =
     (case utf8_next b0 bs of
        None \<Rightarrow> False
      | Some (cp, k) \<Rightarrow> well_formed_utf8 (drop k bs))"
proof -
  consider (ascii) "unat b0 < 128" | (stray) "128 \<le> unat b0" "unat b0 < 192"
    | (two) "192 \<le> unat b0" "unat b0 < 224" | (three) "224 \<le> unat b0" "unat b0 < 240"
    | (four) "240 \<le> unat b0" "unat b0 < 248" | (high) "248 \<le> unat b0"
    by linarith
  then show ?thesis
  proof cases
    case ascii
    then show ?thesis
      by (simp add: utf8_next_def well_formed_utf8_Cons_unat)
  next
    case stray
    then show ?thesis
      by (simp add: utf8_next_def well_formed_utf8_Cons_unat)
  next
    case high
    then show ?thesis
      by (simp add: utf8_next_def well_formed_utf8_Cons_unat)
  next
    case two
    show ?thesis
    proof (cases bs)
      case Nil
      with two show ?thesis
        by (simp add: utf8_next_def well_formed_utf8_Cons_unat)
    next
      case (Cons b1 r)
      let ?cp = "(unat b0 - 192) * 64 + (unat b1 - 128)"
      let ?C = "128 \<le> unat b1 \<and> unat b1 < 192 \<and> 128 \<le> ?cp"
      let ?T = "194 \<le> unat b0 \<and> unat b0 \<le> 223 \<and> 128 \<le> unat b1 \<and> unat b1 \<le> 191"
      have nx: "utf8_next b0 bs = (if ?C then Some (?cp, 1) else None)"
        using two Cons by (simp add: utf8_next_def is_continuation_def Let_def)
      have wf: "well_formed_utf8 (b0 # bs) = (?T \<and> well_formed_utf8 r)"
        using two Cons by (simp add: well_formed_utf8_Cons_unat)
      have eq: "?C = ?T" by (rule table2 [OF two])
      show ?thesis
        unfolding nx wf eq by (cases "?T") (auto simp: Cons)
    qed
  next
    case three
    show ?thesis
    proof (cases bs)
      case Nil
      with three show ?thesis
        by (simp add: utf8_next_def well_formed_utf8_Cons_unat)
    next
      case l1: (Cons b1 r1)
      show ?thesis
      proof (cases r1)
        case Nil
        with three l1 show ?thesis
          by (simp add: utf8_next_def well_formed_utf8_Cons_unat)
      next
        case (Cons b2 r)
        let ?cp = "(unat b0 - 224) * 4096 + (unat b1 - 128) * 64 + (unat b2 - 128)"
        let ?C = "128 \<le> unat b1 \<and> unat b1 < 192 \<and> 128 \<le> unat b2 \<and> unat b2 < 192
          \<and> 2048 \<le> ?cp \<and> \<not> (55296 \<le> ?cp \<and> ?cp < 57344)"
        let ?T = "(if unat b0 = 224 then 160 else 128) \<le> unat b1
          \<and> unat b1 \<le> (if unat b0 = 237 then 159 else 191)
          \<and> 128 \<le> unat b2 \<and> unat b2 \<le> 191"
        have nx: "utf8_next b0 bs = (if ?C then Some (?cp, 2) else None)"
          using three l1 Cons by (simp add: utf8_next_def is_continuation_def Let_def)
        have wf: "well_formed_utf8 (b0 # bs) = (?T \<and> well_formed_utf8 r)"
          using three l1 Cons by (simp add: well_formed_utf8_Cons_unat)
        have eq: "?C = ?T" by (rule table3 [OF three])
        show ?thesis
          unfolding nx wf eq by (cases "?T") (auto simp: l1 Cons)
      qed
    qed
  next
    case four
    show ?thesis
    proof (cases bs)
      case Nil
      with four show ?thesis
        by (simp add: utf8_next_def well_formed_utf8_Cons_unat)
    next
      case l1: (Cons b1 r1)
      show ?thesis
      proof (cases r1)
        case Nil
        with four l1 show ?thesis
          by (simp add: utf8_next_def well_formed_utf8_Cons_unat)
      next
        case l2: (Cons b2 r2)
        show ?thesis
        proof (cases r2)
          case Nil
          with four l1 l2 show ?thesis
            by (simp add: utf8_next_def well_formed_utf8_Cons_unat)
        next
          case (Cons b3 r)
          let ?cp = "(unat b0 - 240) * 262144 + (unat b1 - 128) * 4096
            + (unat b2 - 128) * 64 + (unat b3 - 128)"
          let ?C = "128 \<le> unat b1 \<and> unat b1 < 192 \<and> 128 \<le> unat b2 \<and> unat b2 < 192
            \<and> 128 \<le> unat b3 \<and> unat b3 < 192 \<and> 65536 \<le> ?cp \<and> ?cp < 1114112"
          let ?T = "unat b0 \<le> 244 \<and> (if unat b0 = 240 then 144 else 128) \<le> unat b1
            \<and> unat b1 \<le> (if unat b0 = 244 then 143 else 191)
            \<and> 128 \<le> unat b2 \<and> unat b2 \<le> 191 \<and> 128 \<le> unat b3 \<and> unat b3 \<le> 191"
          have nx: "utf8_next b0 bs = (if ?C then Some (?cp, 3) else None)"
            using four l1 l2 Cons by (simp add: utf8_next_def is_continuation_def Let_def)
          have wf: "well_formed_utf8 (b0 # bs) = (?T \<and> well_formed_utf8 r)"
            using four l1 l2 Cons by (simp add: well_formed_utf8_Cons_unat)
          have eq: "?C = ?T" by (rule table4 [OF four])
          show ?thesis
            unfolding nx wf eq by (cases "?T") (auto simp: l1 l2 Cons)
        qed
      qed
    qed
  qed
qed

subsection \<open>Strict decoding accepts exactly the well-formed texts\<close>

lemma utf8_decode_strict_Cons:
  "utf8_decode True (b0 # bs) =
     (case utf8_next b0 bs of
        Some (cp, k) \<Rightarrow> map_option ((#) cp) (utf8_decode True (drop k bs))
      | None \<Rightarrow> None)"
  by simp

lemma utf8_decode_strict_iff: "utf8_decode True bs \<noteq> None \<longleftrightarrow> well_formed_utf8 bs"
proof (induction "length bs" arbitrary: bs rule: less_induct)
  case less
  show ?case
  proof (cases bs)
    case Nil
    then show ?thesis by simp
  next
    case (Cons b0 r)
    show ?thesis
    proof (cases "utf8_next b0 r")
      case None
      with Cons show ?thesis
        by (simp add: well_formed_utf8_step)
    next
      case (Some a)
      obtain cp k where a: "a = (cp, k)" by (cases a)
      have "length (drop k r) < length bs" using Cons by simp
      from less [OF this] Some a Cons show ?thesis
        by (simp add: well_formed_utf8_step)
    qed
  qed
qed

lemma utf8_decode_encode:
  assumes "scalar_value cp"
  shows "utf8_decode True (utf8_encode cp @ rest) = map_option ((#) cp) (utf8_decode True rest)"
proof -
  from utf8_next_encode [OF assms, of rest] obtain b0 bs where
    enc: "utf8_encode cp = b0 # bs" and nx: "utf8_next b0 (bs @ rest) = Some (cp, length bs)"
    by blast
  show ?thesis by (simp add: enc nx)
qed

lemma utf8_decode_concat:
  "list_all scalar_value cps \<Longrightarrow> utf8_decode True (concat (map utf8_encode cps)) = Some cps"
  by (induction cps) (simp_all add: utf8_decode_encode)

lemma transcode_there_and_back:
  assumes "valid_utf16 s"
  obtains b where "transcode_utf16_to_utf8 True s = Some b"
    and "transcode_utf8_to_utf16 True b = Some s" and "length s \<le> length b"
proof -
  from assms obtain cps where d: "utf16_decode True s = Some cps"
    using utf16_decode_strict_iff [of s] by auto
  note snd = utf16_decode_strict_sound [OF d]
  let ?b = "concat (map utf8_encode cps)"
  have "transcode_utf16_to_utf8 True s = Some ?b"
    by (simp add: transcode_utf16_to_utf8_def d)
  moreover have "transcode_utf8_to_utf16 True ?b = Some s"
    using snd by (simp add: transcode_utf8_to_utf16_def utf8_decode_concat)
  moreover have "length s \<le> length ?b" using snd by simp
  ultimately show thesis by (rule that)
qed

lemma valid_utf16_no_surrogates:
  "\<forall>u \<in> set s. \<not> is_high_surrogate u \<and> \<not> is_low_surrogate u \<Longrightarrow> valid_utf16 s"
  by (induction s rule: valid_utf16.induct) auto

lemma lenient_mode_substitutes:
  "transcode_utf16_to_utf8 False [0xD800] = Some [0xEF, 0xBF, 0xBD]"
  "transcode_utf8_to_utf16 False [0xE5, 0x41] = Some [0xFFFD, 0x41]"
  by (simp_all add: transcode_utf16_to_utf8_def transcode_utf8_to_utf16_def utf16_next_def
      utf8_next_def is_high_surrogate_def is_low_surrogate_def is_continuation_def
      utf8_encode_def utf16_encode_def REPLACEMENT_CHARACTER_def)

lemma malformed_utf16_is_rejected:
  assumes "\<not> valid_utf16 utf16"
  shows "fst (Utf8FromUtf16 win32 utf16 w) =
     Inl (if length utf16 \<le> 2147483647
          then ConversionException (UnicodeConversionException ERROR_NO_UNICODE_TRANSLATION
            ConversionFromUtf16ToUtf8
            ''Can't get result UTF-8 string length (WideCharToMultiByte failed).'')
          else overflow_error
            ''Input size_t value is too large: size_t-length doesn't fit into an int.'')"
proof -
  from assms have ne: "utf16 \<noteq> []" by auto
  from assms have t: "transcode_utf16_to_utf8 True utf16 = None"
    using utf16_decode_strict_iff [of utf16] by (simp add: transcode_utf16_to_utf8_def)
  show ?thesis
  proof (cases "length utf16 \<le> 2147483647")
    case True
    from Utf8FromUtf16_win32_malformed [OF ne True t] True show ?thesis by simp
  next
    case False
    with ne show ?thesis by (simp add: Utf8FromUtf16_overflow)
  qed
qed

lemma malformed_utf8_is_rejected:
  assumes "\<not> well_formed_utf8 utf8"
  shows "fst (Utf16FromUtf8 win32 utf8 w) =
     Inl (if length utf8 \<le> 2147483647
          then ConversionException (UnicodeConversionException ERROR_NO_UNICODE_TRANSLATION
            ConversionFromUtf8ToUtf16
            ''Can't get result UTF-16 string length (MultiByteToWideChar failed).'')
          else overflow_error
            ''Input size_t value is too large: size_t-length doesn't fit into an int.'')"
proof -
  from assms have ne: "utf8 \<noteq> []" by auto
  from assms have t: "transcode_utf8_to_utf16 True utf8 = None"
    using utf8_decode_strict_iff [of utf8] by (simp add: transcode_utf8_to_utf16_def)
  show ?thesis
  proof (cases "length utf8 \<le> 2147483647")
    case True
    from Utf16FromUtf8_win32_malformed [OF ne True t] True show ?thesis by simp
  next
    case False
    with ne show ?thesis by (simp add: Utf16FromUtf8_overflow)
  qed
qed

section \<open>The known vector\<close>

text \<open>
  Claim C8. For the single UTF-16 code unit \<open>0x5B66\<close>, \<open>Utf8FromUtf16\<close> returns
  exactly the three bytes \<open>0xE5, 0xAD, 0xA6\<close>, and \<open>Utf16FromUtf8\<close> applied to these
  three bytes returns the single code unit \<open>0x5B66\<close>, whatever the last-error value
  was; both calls leave it as it was.
\<close>

theorem known_vector:
  "Utf8FromUtf16 win32 [0x5B66] w = (Inr [0xE5, 0xAD, 0xA6], w)
   \<and> length [0xE5, 0xAD, 0xA6 :: cchar] = 3
   \<and> Utf16FromUtf8 win32 [0xE5, 0xAD, 0xA6] w = (Inr [0x5B66], w)"
proof -
  have a: "transcode_utf16_to_utf8 True [0x5B66] = Some [0xE5, 0xAD, 0xA6]"
    by (simp add: transcode_utf16_to_utf8_def utf16_next_def is_high_surrogate_def
        is_low_surrogate_def utf8_encode_def)
  have b: "transcode_utf8_to_utf16 True [0xE5, 0xAD, 0xA6] = Some [0x5B66]"
    by (simp add: transcode_utf8_to_utf16_def utf8_next_def is_continuation_def
        utf16_encode_def)
  show ?thesis
    using Utf8FromUtf16_win32_ok [OF _ _ a] Utf16FromUtf8_win32_ok [OF _ _ b]
    by simp
qed

section \<open>Round trip\<close>

text \<open>
  Claim C1 (as amended). Let \<open>s\<close> be UTF-16 text without an unpaired surrogate. Then
  \<open>s\<close> has a UTF-8 form \<open>b\<close>, and whenever \<open>b\<close> is at most \<open>INT_MAX\<close> bytes long
  (so that \<open>s\<close> is at most \<open>INT_MAX\<close> code units long as well), \<open>Utf8FromUtf16\<close>
  returns \<open>b\<close> for \<open>s\<close> and \<open>Utf16FromUtf8\<close> returns \<open>s\<close> for \<open>b\<close>: converting to
  UTF-8 and back is the identity.
\<close>

theorem round_trip:
  assumes "valid_utf16 s"
  shows "\<exists>b. transcode_utf16_to_utf8 True s = Some b
           \<and> (length b \<le> 2147483647 \<longrightarrow>
                Utf8FromUtf16 win32 s w = (Inr b, w) \<and> Utf16FromUtf8 win32 b w = (Inr s, w))"
proof -
  from assms obtain b where
    t: "transcode_utf16_to_utf8 True s = Some b" and
    t': "transcode_utf8_to_utf16 True b = Some s" and
    len: "length s \<le> length b"
    by (rule transcode_there_and_back)
  have "Utf8FromUtf16 win32 s w = (Inr b, w) \<and> Utf16FromUtf8 win32 b w = (Inr s, w)"
    if le: "length b \<le> 2147483647"
  proof (cases "s = []")
    case True
    with t have "b = []" by (simp add: transcode_utf16_to_utf8_def)
    with True show ?thesis by (simp add: Utf8FromUtf16_def Utf16FromUtf8_def)
  next
    case False
    with len have ne: "b \<noteq> []" by auto
    from len le have le': "length s \<le> 2147483647" by simp
    show ?thesis
      using Utf8FromUtf16_win32_ok [OF False le' t ne le]
        Utf16FromUtf8_win32_ok [OF ne le t' False le']
      by simp
  qed
  with t show ?thesis by blast
qed

theorem round_trip_witness:
  "valid_utf16 [0xD83D, 0xDE00, 0x41, 0xE9]
   \<and> Utf8FromUtf16 win32 [0xD83D, 0xDE00, 0x41, 0xE9] 0
       = (Inr [0xF0, 0x9F, 0x98, 0x80, 0x41, 0xC3, 0xA9], 0)
   \<and> Utf16FromUtf8 win32 [0xF0, 0x9F, 0x98, 0x80, 0x41, 0xC3, 0xA9] 0
       = (Inr [0xD83D, 0xDE00, 0x41, 0xE9], 0)"
proof -
  have v: "valid_utf16 [0xD83D, 0xDE00, 0x41, 0xE9]"
    by (simp add: is_high_surrogate_def is_low_surrogate_def)
  have t: "transcode_utf16_to_utf8 True [0xD83D, 0xDE00, 0x41, 0xE9]
      = Some [0xF0, 0x9F, 0x98, 0x80, 0x41, 0xC3, 0xA9]"
    by (simp add: transcode_utf16_to_utf8_def utf16_next_def is_high_surrogate_def
        is_low_surrogate_def utf8_encode_def)
  show ?thesis
    using round_trip [OF v, of 0] v by (simp add: t)
qed

text \<open>
  Without the bound the claim fails: \<open>2\<^sup>3\<^sup>1\<close> times the letter A is UTF-16 text
  without any surrogate, and \<open>Utf8FromUtf16\<close> throws \<open>std::overflow_error\<close> on it.
\<close>

theorem round_trip_counterexample:
  "valid_utf16 (replicate 2147483648 0x41)
   \<and> fst (Utf8FromUtf16 win32 (replicate 2147483648 0x41) 0) = Inl (overflow_error
        ''Input size_t value is too large: size_t-length doesn't fit into an int.'')"
proof -
  have "valid_utf16 (replicate 2147483648 0x41)"
    by (rule valid_utf16_no_surrogates)
      (simp add: is_high_surrogate_def is_low_surrogate_def)
  then show ?thesis
    by (simp add: Utf8FromUtf16_overflow)
qed

section \<open>Strict validation\<close>

text \<open>
  Claim C2. Both conversions run the primitive in strict mode: every transcoding call
  they make, on any platform, carries \<open>WC_ERR_INVALID_CHARS\<close> (in \<open>Utf8FromUtf16\<close>)
  or \<open>MB_ERR_INVALID_CHARS\<close> (in \<open>Utf16FromUtf8\<close>) as its flags. On the modelled
  primitive, \<open>Utf8FromUtf16\<close> throws for every UTF-16 input with an unpaired
  surrogate and \<open>Utf16FromUtf8\<close> throws for every UTF-8 input that is not well
  formed: the exception of the measure pass with \<open>ERROR_NO_UNICODE_TRANSLATION\<close>, or
  \<open>std::overflow_error\<close> when the input is longer than \<open>INT_MAX\<close>. No output is
  returned, so none with replacement characters.
\<close>

theorem strict_validation:
  fixes api :: "'w Win32"
  shows
    "(\<not> valid_utf16 utf16 \<longrightarrow>
        fst (Utf8FromUtf16 win32 utf16 e) =
          Inl (if length utf16 \<le> 2147483647
               then ConversionException (UnicodeConversionException
                 ERROR_NO_UNICODE_TRANSLATION ConversionFromUtf16ToUtf8
                 ''Can't get result UTF-8 string length (WideCharToMultiByte failed).'')
               else overflow_error
                 ''Input size_t value is too large: size_t-length doesn't fit into an int.''))
     \<and> (\<not> well_formed_utf8 utf8 \<longrightarrow>
        fst (Utf16FromUtf8 win32 utf8 e) =
          Inl (if length utf8 \<le> 2147483647
               then ConversionException (UnicodeConversionException
                 ERROR_NO_UNICODE_TRANSLATION ConversionFromUtf8ToUtf16
                 ''Can't get result UTF-16 string length (MultiByteToWideChar failed).'')
               else overflow_error
                 ''Input size_t value is too large: size_t-length doesn't fit into an int.''))
     \<and> (\<forall>c \<in> set (snd (snd (Utf8FromUtf16 (traced api) utf16 (w, [])))).
          call_flags c = WC_ERR_INVALID_CHARS)
     \<and> (\<forall>c \<in> set (snd (snd (Utf16FromUtf8 (traced api) utf8 (w, [])))).
          call_flags c = MB_ERR_INVALID_CHARS)"
proof -
  have "\<forall>c \<in> set (snd (snd (Utf8FromUtf16 (traced api) utf16 (w, [])))).
      call_flags c = WC_ERR_INVALID_CHARS"
    unfolding Utf8FromUtf16_calls by (simp add: Let_def)
  moreover have "\<forall>c \<in> set (snd (snd (Utf16FromUtf8 (traced api) utf8 (w, [])))).
      call_flags c = MB_ERR_INVALID_CHARS"
    unfolding Utf16FromUtf8_calls by (simp add: Let_def)
  ultimately show ?thesis
    using malformed_utf16_is_rejected [of utf16 e] malformed_utf8_is_rejected [of utf8 e]
    by blast
qed

theorem strict_validation_witness:
  "\<not> valid_utf16 [0x41, 0xD800]
   \<and> fst (Utf8FromUtf16 win32 [0x41, 0xD800] 0) =
       Inl (ConversionException (UnicodeConversionException
         ERROR_NO_UNICODE_TRANSLATION ConversionFromUtf16ToUtf8
         ''Can't get result UTF-8 string length (WideCharToMultiByte failed).''))
   \<and> \<not> well_formed_utf8 [0xE5, 0x41, 0xA6]
   \<and> fst (Utf16FromUtf8 win32 [0xE5, 0x41, 0xA6] 0) =
       Inl (ConversionException (UnicodeConversionException
         ERROR_NO_UNICODE_TRANSLATION ConversionFromUtf8ToUtf16
         ''Can't get result UTF-16 string length (MultiByteToWideChar failed).''))
   \<and> snd (snd (Utf8FromUtf16 (traced win32) [0x41, 0xD800] (0, []))) =
       [Call_WideCharToMultiByte CP_UTF8 WC_ERR_INVALID_CHARS [0x41, 0xD800] 2 None 0]
   \<and> call_flags (Call_WideCharToMultiByte CP_UTF8 WC_ERR_INVALID_CHARS [0x41, 0xD800] 2 None 0)
       = WC_ERR_INVALID_CHARS"
proof -
  have v: "\<not> valid_utf16 [0x41, 0xD800]"
    by (simp add: is_high_surrogate_def is_low_surrogate_def)
  have v': "\<not> well_formed_utf8 [0xE5, 0x41, 0xA6]"
    by (simp add: well_formed_utf8.simps between_def)
  have t: "transcode_utf16_to_utf8 True [0x41, 0xD800] = None"
    by (simp add: transcode_utf16_to_utf8_def utf16_next_def is_high_surrogate_def
        is_low_surrogate_def)
  have m: "WideCharToMultiByte win32 CP_UTF8 WC_ERR_INVALID_CHARS [0x41, 0xD800] 2 None 0 0
      = ((0, []), ERROR_NO_UNICODE_TRANSLATION)"
    by (simp add: win32_WideCharToMultiByte_def t answer_malformed)
  have tr: "snd (snd (Utf8FromUtf16 (traced win32) [0x41, 0xD800] (0, []))) =
       [Call_WideCharToMultiByte CP_UTF8 WC_ERR_INVALID_CHARS [0x41, 0xD800] 2 None 0]"
    unfolding Utf8FromUtf16_calls using m by simp
  show ?thesis
    using strict_validation [of "[0x41, 0xD800]" 0 "[0xE5, 0x41, 0xA6]" win32 0] v v' tr
    by simp
qed

end
